theory Spec2Isabelle
  imports Main "HOL-Library.AList" "HOL-Library.Sublist"
begin

section \<open>Python primitives used by \<open>patch_files.py\<close>\<close>

text \<open>
  The exceptions the module can let escape.  \<open>OSError\<close> stands for the file-system
  failures of \<open>unlink\<close> and \<open>rename_file\<close>, \<open>JSONError\<close> for a sidecar that
  \<open>update_json\<close> cannot read as a JSON object, \<open>DicomReadError\<close> for a file that
  \<open>pydicom.dcmread\<close> cannot read.
\<close>

datatype error = ValueError | OverflowError | IndexError | OSError | JSONError | DicomReadError

text \<open>
  Strings are lists of characters, and a character of the model is a code point below
  256.  Among these the decimal digits are \<open>0\<close> to \<open>9\<close>, and the white space that
  \<open>int\<close> skips is the ASCII white space (9 to 13 and 32) together with the two
  spaces 133 and 160; the separators 28 to 31 are not skipped.
\<close>

definition is_digit :: "char \<Rightarrow> bool" where
  "is_digit c = (48 \<le> (of_char c :: nat) \<and> (of_char c :: nat) \<le> 57)"

definition digit_value :: "char \<Rightarrow> int" where
  "digit_value c = int (of_char c) - 48"

definition is_space :: "char \<Rightarrow> bool" where
  "is_space c = ((of_char c :: nat) \<in> {9, 10, 11, 12, 13, 32, 133, 160})"

definition strip :: "string \<Rightarrow> string" where
  "strip s = rev (dropWhile is_space (rev (dropWhile is_space s)))"

text \<open>\<open>parse_digits acc s\<close> reads the rest of a decimal literal once a first digit has been
  read: digits, with single underscores allowed between two digits.\<close>

fun parse_digits :: "int \<Rightarrow> string \<Rightarrow> int option" where
  "parse_digits acc [] = Some acc"
| "parse_digits acc [c] = (if is_digit c then Some (10 * acc + digit_value c) else None)"
| "parse_digits acc (c # d # ds) =
     (if is_digit c then parse_digits (10 * acc + digit_value c) (d # ds)
      else if c = CHR ''_'' \<and> is_digit d then parse_digits (10 * acc + digit_value d) ds
      else None)"

text \<open>\<open>int(s)\<close> for a string \<open>s\<close>: \<open>None\<close> stands for the \<open>ValueError\<close>.  White space
  around the literal is stripped, one sign is allowed, at least one digit is needed, and
  a literal of more than 4300 digits is refused (the interpreter's default limit).\<close>

definition py_int :: "string \<Rightarrow> int option" where
  "py_int s =
     (let t = strip s;
          neg = (case t of [] \<Rightarrow> False | c # _ \<Rightarrow> c = CHR ''-'');
          u = (case t of [] \<Rightarrow> [] | c # r \<Rightarrow> if c = CHR ''-'' \<or> c = CHR ''+'' then r else t)
      in case u of
           [] \<Rightarrow> None
         | c # cs \<Rightarrow>
             if is_digit c \<and> length (filter is_digit u) \<le> 4300
             then map_option (\<lambda>n. if neg then - n else n) (parse_digits (digit_value c) cs)
             else None)"

text \<open>\<open>str(n)\<close> for an integer \<open>n\<close>.\<close>

fun digits_of :: "nat \<Rightarrow> string" where
  "digits_of n =
     (if n < 10 then [char_of (48 + n)]
      else digits_of (n div 10) @ [char_of (48 + n mod 10)])"

declare digits_of.simps [simp del]

definition py_str :: "int \<Rightarrow> string" where
  "py_str n = (if n < 0 then CHR ''-'' # digits_of (nat (- n)) else digits_of (nat n))"

text \<open>
  \<open>math.ceil(n / 2)\<close> for an integer \<open>n\<close>.  \<open>n / 2\<close> is Python's true division: the
  quotient rounded to the nearest double (53 significant bits, ties to even), with
  \<open>OverflowError\<close> when that is \<open>2 ^ 1024\<close> or more.  Halving only moves the exponent, so
  the rounding is that of \<open>n\<close> itself: \<open>round_double m\<close> is the double nearest to the
  natural number \<open>m\<close>, and the quotient overflows when that has more than 1025 bits
  (is \<open>2 ^ 1025\<close> or more).  \<open>math.ceil\<close> then gives an exact integer.
\<close>

fun bit_length :: "nat \<Rightarrow> nat" where
  "bit_length n = (if n = 0 then 0 else Suc (bit_length (n div 2)))"

declare bit_length.simps [simp del]

definition round_double :: "nat \<Rightarrow> nat" where
  "round_double m =
     (let k = bit_length m - 53
      in if k = 0 then m
         else (let q = m div 2 ^ k; r = m mod 2 ^ k; half = 2 ^ (k - 1)
               in (if half < r \<or> (r = half \<and> odd q) then q + 1 else q) * 2 ^ k))"

definition ceil_half :: "int \<Rightarrow> error + int" where
  "ceil_half n =
     (let r = round_double (nat \<bar>n\<bar>)
      in if 1025 < bit_length r then Inl OverflowError
         else Inr (if 0 \<le> n then (int r + 1) div 2 else - (int r div 2)))"

text \<open>\<open>s.split(sep)\<close> and the split at the first separator only.\<close>

fun split_on :: "char \<Rightarrow> string \<Rightarrow> string list" where
  "split_on d [] = [[]]"
| "split_on d (c # cs) =
     (if c = d then [] # split_on d cs
      else (case split_on d cs of [] \<Rightarrow> [[c]] | w # ws \<Rightarrow> (c # w) # ws))"

fun split_first :: "char \<Rightarrow> string \<Rightarrow> string \<times> string option" where
  "split_first d [] = ([], None)"
| "split_first d (c # cs) =
     (if c = d then ([], Some cs)
      else (case split_first d cs of (h, t) \<Rightarrow> (c # h, t)))"

fun join_with :: "char \<Rightarrow> string list \<Rightarrow> string" where
  "join_with d [] = []"
| "join_with d [w] = w"
| "join_with d (w # v # ws) = w @ d # join_with d (v # ws)"

section \<open>The structured file name (\<open>BidsName\<close>)\<close>

text \<open>
  Modelled from the spec: the class \<open>BidsName\<close> of \<open>mni_7t_dicom_to_bids.dataclass\<close>,
  which \<open>patch_files.py\<close> imports and whose source is not part of the files at hand.
  The spec describes it as ``a parsed representation of a BIDS-style filename as an
  ordered sequence of key-value (or bare) components plus a file extension'' that
  supports ``existence check of a component key, existence check of a specific key=value
  pair, regex search over the raw string, add/remove of a component, and serialization
  back to a canonical string'', with the invariant that ``component keys within a parsed
  filename are unique''.

  A component is a key with an optional value (\<open>None\<close> for a bare token such as
  \<open>T2starw\<close>); the components are an association list in file-name order.  The
  delimiters are those of the names the spec shows (\<open>acq-anat_run-2\<close>, \<open>*mt-off*.json\<close>):
  \<open>_\<close> between components, \<open>-\<close> between key and value, and the first \<open>.\<close> before the
  extension.
\<close>

record BidsName =
  parts :: "(string \<times> string option) list"
  extension :: string

text \<open>Modelled from the spec: existence check of a component key.\<close>

definition has :: "string \<Rightarrow> BidsName \<Rightarrow> bool" where
  "has k b = (map_of (parts b) k \<noteq> None)"

text \<open>Modelled from the spec: existence check of a specific key=value pair.\<close>

definition has_value :: "string \<Rightarrow> string \<Rightarrow> BidsName \<Rightarrow> bool" where
  "has_value k v b = (map_of (parts b) k = Some (Some v))"

text \<open>Modelled from the spec: the value of a component (``read \<open>run\<close> (default 0)''); no
  value for a missing key and for a bare token.\<close>

definition get :: "string \<Rightarrow> BidsName \<Rightarrow> string option" where
  "get k b = (case map_of (parts b) k of Some (Some v) \<Rightarrow> Some v | _ \<Rightarrow> None)"

text \<open>Modelled from the spec: add of a component.  Keys stay unique, and the spec's rule
  11 ``sets'' \<open>acq\<close> and \<open>run\<close> with it: an existing key gets the new value in place, a new
  key goes to the end.\<close>

definition add :: "string \<Rightarrow> string option \<Rightarrow> BidsName \<Rightarrow> BidsName" where
  "add k v b = b\<lparr>parts := AList.update k v (parts b)\<rparr>"

text \<open>Modelled from the spec: remove of a component.  The source removes \<open>run\<close> without a
  check in its \<open>T2starmap\<close> rule, so removing a missing key changes nothing.\<close>

definition remove_part :: "string \<Rightarrow> BidsName \<Rightarrow> BidsName" where
  "remove_part k b = b\<lparr>parts := AList.delete k (parts b)\<rparr>"

text \<open>Modelled from the spec: serialization back to a canonical string.\<close>

definition part_string :: "string \<times> string option \<Rightarrow> string" where
  "part_string p = (case snd p of None \<Rightarrow> fst p | Some v \<Rightarrow> fst p @ CHR ''-'' # v)"

definition to_string :: "BidsName \<Rightarrow> string" where
  "to_string b =
     join_with (CHR ''_'') (map part_string (parts b))
       @ (if extension b = [] then [] else CHR ''.'' # extension b)"

text \<open>Modelled from the spec: parsing of a file name.  The components are entered one
  after the other, as into a dictionary, so that the keys are unique.\<close>

definition from_string :: "string \<Rightarrow> BidsName" where
  "from_string s =
     (case split_first (CHR ''.'') s of
        (stem, ext) \<Rightarrow>
          \<lparr>parts = foldl (\<lambda>ps t. case split_first (CHR ''-'') t of (k, v) \<Rightarrow> AList.update k v ps)
                     [] (split_on (CHR ''_'') stem),
           extension = (case ext of None \<Rightarrow> [] | Some e \<Rightarrow> e)\<rparr>)"

text \<open>Modelled from the spec: regex search over the raw string, for the one pattern the
  module uses, \<open>e(\d)\<close>: the digit of the leftmost \<open>e\<close> that a digit follows.  The match's
  group 0 is then \<open>e\<close> and the digit, its group 1 the digit.\<close>

fun search_echo :: "string \<Rightarrow> char option" where
  "search_echo [] = None"
| "search_echo [c] = None"
| "search_echo (c # d # cs) =
     (if c = CHR ''e'' \<and> is_digit d then Some d else search_echo (d # cs))"

definition match_echo :: "BidsName \<Rightarrow> char option" where
  "match_echo b = search_echo (to_string b)"

section \<open>The rename rules of \<open>patch_file_path\<close>\<close>

text \<open>
  The rules of lines 46 to 91 of \<open>patch_files.py\<close>, one definition for each \<open>if\<close> of the
  source, in the order of the source.  The source mutates one \<open>BidsName\<close>; here each rule
  returns the new one.
\<close>

text \<open>Lines 47--50: replace \<open>e?\<close> by \<open>echo-?\<close>.\<close>

definition rule_echo :: "BidsName \<Rightarrow> BidsName" where
  "rule_echo b =
     (case match_echo b of
        None \<Rightarrow> b
      | Some d \<Rightarrow> add ''echo'' (Some [d]) (remove_part [CHR ''e'', d] b))"

text \<open>Lines 53--54: remove \<open>run\<close> from echo files, except for \<open>task-rest\<close>.\<close>

definition rule_echo_run :: "BidsName \<Rightarrow> BidsName" where
  "rule_echo_run b =
     (if has ''echo'' b \<and> has ''run'' b \<and> \<not> has_value ''task'' ''rest'' b
      then remove_part ''run'' b else b)"

text \<open>Lines 57--58: remove \<open>run\<close> from MTR files.\<close>

definition rule_mtw_run :: "BidsName \<Rightarrow> BidsName" where
  "rule_mtw_run b =
     (if has_value ''acq'' ''mtw'' b \<and> has ''run'' b then remove_part ''run'' b else b)"

text \<open>Lines 61--63: replace \<open>ph\<close> with \<open>part-phase\<close>.\<close>

definition rule_ph :: "BidsName \<Rightarrow> BidsName" where
  "rule_ph b =
     (if has ''ph'' b then add ''part'' (Some ''phase'') (remove_part ''ph'' b) else b)"

text \<open>Lines 66--67: add \<open>part-mag\<close> to T2 files with echo.\<close>

definition rule_part_mag :: "BidsName \<Rightarrow> BidsName" where
  "rule_part_mag b =
     (if has ''T2starw'' b \<and> has ''echo'' b \<and> \<not> has ''part'' b
      then add ''part'' (Some ''mag'') b else b)"

text \<open>Lines 70--75: replace a standalone \<open>T2starw\<close> with \<open>T2starmap\<close>.\<close>

definition rule_t2starmap :: "BidsName \<Rightarrow> BidsName" where
  "rule_t2starmap b =
     (if has_value ''acq'' ''aspire'' b \<and> has ''T2starw'' b
         \<and> \<not> has ''desc'' b \<and> \<not> has ''part'' b
      then add ''T2starmap'' None (remove_part ''T2starw'' (remove_part ''run'' b))
      else b)"

text \<open>Lines 78--79: remove \<open>run-1\<close> in DWI acquisitions.\<close>

definition rule_dwi_run1 :: "BidsName \<Rightarrow> BidsName" where
  "rule_dwi_run1 b =
     (if has ''dwi'' b \<and> has_value ''run'' ''1'' b then remove_part ''run'' b else b)"

text \<open>Lines 82--84: replace \<open>run-2\<close> with \<open>part-phase\<close> in DWI acquisitions.\<close>

definition rule_dwi_run2 :: "BidsName \<Rightarrow> BidsName" where
  "rule_dwi_run2 b =
     (if has ''dwi'' b \<and> has_value ''run'' ''2'' b
      then add ''part'' (Some ''phase'') (remove_part ''run'' b) else b)"

text \<open>Line 88: \<open>int(bids_name.get('run') or 0)\<close>.  A missing value and the empty string
  are falsy and give 0; any other string goes through \<open>int\<close>.\<close>

definition run_number_of :: "BidsName \<Rightarrow> error + int" where
  "run_number_of b =
     (case get ''run'' b of
        None \<Rightarrow> Inr 0
      | Some v \<Rightarrow>
          if v = [] then Inr 0
          else (case py_int v of None \<Rightarrow> Inl ValueError | Some n \<Rightarrow> Inr n))"

text \<open>Lines 87--91: the TB1TFL post processing.\<close>

definition rule_tb1tfl :: "BidsName \<Rightarrow> error + BidsName" where
  "rule_tb1tfl b =
     (if has ''TB1TFL'' b then
        (case run_number_of b of
           Inl e \<Rightarrow> Inl e
         | Inr run_number \<Rightarrow>
             (let acquisition_name = (if run_number mod 2 = 1 then ''anat'' else ''sfam'');
                  b1 = add ''acq'' (Some acquisition_name) b
              in case ceil_half run_number of
                   Inl e \<Rightarrow> Inl e
                 | Inr c \<Rightarrow> Inr (add ''run'' (Some (py_str c)) b1)))
      else Inr b)"

text \<open>Lines 46--84: the rules before the TB1TFL rule, in order.\<close>

definition rules_before_tb1tfl :: "BidsName \<Rightarrow> BidsName" where
  "rules_before_tb1tfl b =
     rule_dwi_run2 (rule_dwi_run1 (rule_t2starmap (rule_part_mag (rule_ph
       (rule_mtw_run (rule_echo_run (rule_echo b)))))))"

text \<open>Lines 46--91: the whole rule sequence applied to a parsed name.\<close>

definition rename_rules :: "BidsName \<Rightarrow> error + BidsName" where
  "rename_rules b = rule_tb1tfl (rules_before_tb1tfl b)"

section \<open>The acquisition directory and the console\<close>

text \<open>
  A JSON value; \<open>'f\<close> is the type of Python's floating-point numbers, which the module
  only moves from \<open>float\<close> into a sidecar.
\<close>

datatype 'f json =
    JNull
  | JBool bool
  | JInt int
  | JFloat 'f
  | JString string
  | JArray "'f json list"
  | JObject "(string \<times> 'f json) list"

text \<open>A file holds a JSON object (a sidecar: its keys in order) or anything else.\<close>

datatype 'f content = JsonFile "(string \<times> 'f json) list" | OtherFile

text \<open>What the module writes to the console: the three \<open>print\<close> calls of
  \<open>patch_file_path\<close> and the \<open>print_warning\<close> of \<open>get_mt_flip_angle\<close>.\<close>

datatype notice =
    RemoveMP2RAGE string
  | RemoveROI string
  | Renaming string string
  | WarningMTFlipAngle string

text \<open>
  The state the module works on: the files of the acquisition directory, by name, in the
  order the directory lists them, and the console.  The directory is taken to hold files
  only, so that the recursive search of \<open>rglob\<close> ranges over the same entries.
\<close>

record 'f state =
  files :: "(string \<times> 'f content) list"
  console :: "notice list"

text \<open>A call returns a value or raises; either way it leaves a state behind.\<close>

datatype 'a result = Returns 'a | Raises error

definition print :: "notice \<Rightarrow> 'f state \<Rightarrow> 'f state" where
  "print n st = st\<lparr>console := console st @ [n]\<rparr>"

text \<open>The names of the files of the directory, in the order of its listing.\<close>

definition iterdir :: "'f state \<Rightarrow> string list" where
  "iterdir st = map fst (files st)"

text \<open>\<open>Path.unlink\<close>: raises for a file that is not there.\<close>

definition unlink :: "string \<Rightarrow> 'f state \<Rightarrow> unit result \<times> 'f state" where
  "unlink name st =
     (if name \<in> set (iterdir st)
      then (Returns (), st\<lparr>files := AList.delete name (files st)\<rparr>)
      else (Raises OSError, st))"

text \<open>Modelled from the spec: \<open>bic_util.fs.rename_file\<close>, one of the spec's
  ``file-rename primitives'', whose source is not part of the files at hand.  The file
  gets the new name in its directory, replacing a file that has that name already (as
  \<open>os.rename\<close> does on POSIX), and the call raises for a file that is not there.\<close>

definition rename_file :: "string \<Rightarrow> string \<Rightarrow> 'f state \<Rightarrow> unit result \<times> 'f state" where
  "rename_file name new_name st =
     (case map_of (files st) name of
        None \<Rightarrow> (Raises OSError, st)
      | Some c \<Rightarrow>
          (Returns (), st\<lparr>files := AList.update new_name c (AList.delete name (files st))\<rparr>))"

text \<open>A \<open>for\<close> loop over a list of paths: the body runs on each element in turn, and
  an exception ends the loop.\<close>

fun for_each :: "('a \<Rightarrow> 's \<Rightarrow> unit result \<times> 's) \<Rightarrow> 'a list \<Rightarrow> 's \<Rightarrow> unit result \<times> 's" where
  "for_each body [] st = (Returns (), st)"
| "for_each body (x # xs) st =
     (case body x st of
        (Returns _, st') \<Rightarrow> for_each body xs st'
      | (Raises e, st') \<Rightarrow> (Raises e, st'))"

section \<open>\<open>patch_file_path\<close>\<close>

text \<open>Lines 27--98.  The path is the name of a file of the acquisition directory;
  \<open>new_file_name\<close> is the variable of that name of line 93, the rules applied to the
  parsed name and the result written as a string.\<close>

definition new_file_name :: "string \<Rightarrow> error + string" where
  "new_file_name name =
     (case rename_rules (from_string name) of
        Inl e \<Rightarrow> Inl e
      | Inr renamed \<Rightarrow> Inr (to_string renamed))"

text \<open>Lines 96--98: rename the file on the system if the name has changed.\<close>

definition rename_if_changed :: "string \<Rightarrow> string \<Rightarrow> 'f state \<Rightarrow> unit result \<times> 'f state" where
  "rename_if_changed name new_name st =
     (if new_name \<noteq> name
      then rename_file name new_name (print (Renaming name new_name) st)
      else (Returns (), st))"


definition patch_file_path :: "string \<Rightarrow> 'f state \<Rightarrow> unit result \<times> 'f state" where
  "patch_file_path name st =
     (let bids_name = from_string name
      in if has ''MP2RAGE'' bids_name
            \<and> (extension bids_name = ''bval'' \<or> extension bids_name = ''bvec'')
         then unlink name (print (RemoveMP2RAGE name) st)
         else if has ''ROI1'' bids_name
         then unlink name (print (RemoveROI name) st)
         else (case new_file_name name of
                 Inl e \<Rightarrow> (Raises e, st)
               | Inr new_name \<Rightarrow> rename_if_changed name new_name st))"

section \<open>The MT flip angle of the DICOM series\<close>

text \<open>
  Modelled from the spec: the class \<open>DicomSeriesInfo\<close> of
  \<open>mni_7t_dicom_to_bids.dataclass\<close>, ``an identifier plus an ordered sequence of file
  paths belonging to one acquisition series''.
\<close>

record 'i DicomSeriesInfo =
  series_id :: 'i
  file_paths :: "string list"

text \<open>A DICOM data set as the module reads it: for a tag, the string form
  (\<open>str(element.value)\<close>) of the element with that tag, if there is one.\<close>

type_synonym dataset = "nat \<times> nat \<Rightarrow> string option"

text \<open>
  The search \<open>re.search(r'sWipMemBlock\.adFree\[2\]\\t = \\t(.+?)\\n', text)\<close>.  In the
  pattern \<open>\\t\<close> and \<open>\\n\<close> are a backslash followed by a letter.  The group \<open>(.+?)\<close> is
  the shortest non-empty run of characters other than the line feed that the closing
  backslash and \<open>n\<close> follow; the leftmost start that has such a group wins.
\<close>

definition backslash :: char where
  "backslash = CHR 0x5C"

definition mt_flip_angle_prefix :: string where
  "mt_flip_angle_prefix =
     ''sWipMemBlock.adFree[2]'' @ [backslash, CHR ''t''] @ '' = '' @ [backslash, CHR ''t'']"

fun drop_prefix :: "string \<Rightarrow> string \<Rightarrow> string option" where
  "drop_prefix [] s = Some s"
| "drop_prefix (p # ps) [] = None"
| "drop_prefix (p # ps) (c # cs) = (if p = c then drop_prefix ps cs else None)"

fun lazy_group :: "string \<Rightarrow> string option" where
  "lazy_group [] = None"
| "lazy_group (c # cs) =
     (if c = CHR 0x0A then None
      else if drop_prefix [backslash, CHR ''n''] cs \<noteq> None then Some [c]
      else map_option ((#) c) (lazy_group cs))"

fun search_mt_flip_angle :: "string \<Rightarrow> string option" where
  "search_mt_flip_angle [] = None"
| "search_mt_flip_angle (c # cs) =
     (case drop_prefix mt_flip_angle_prefix (c # cs) of
        None \<Rightarrow> search_mt_flip_angle cs
      | Some rest \<Rightarrow>
          (case lazy_group rest of
             None \<Rightarrow> search_mt_flip_angle cs
           | Some g \<Rightarrow> Some g))"

text \<open>
  Lines 133--156.  Two things of the environment are parameters: \<open>py_float\<close> is
  Python's \<open>float\<close> on strings (\<open>None\<close> for its \<open>ValueError\<close>), and \<open>dcmread\<close> is
  \<open>pydicom.dcmread\<close> on the files of the series (\<open>None\<close> for a file it cannot read,
  where it raises).
\<close>

definition get_mt_flip_angle ::
  "(string \<Rightarrow> 'f option) \<Rightarrow> (string \<Rightarrow> dataset option) \<Rightarrow> 'i DicomSeriesInfo
     \<Rightarrow> 'g state \<Rightarrow> 'f option result \<times> 'g state" where
  "get_mt_flip_angle py_float dcmread dicom_series st =
     (case file_paths dicom_series of
        [] \<Rightarrow> (Raises IndexError, st)
      | path # _ \<Rightarrow>
          (case dcmread path of
             None \<Rightarrow> (Raises DicomReadError, st)
           | Some dicom \<Rightarrow>
               (case dicom (0x0029, 0x1020) of
                  None \<Rightarrow> (Returns None, st)
                | Some csa_header \<Rightarrow>
                    (case search_mt_flip_angle csa_header of
                       None \<Rightarrow> (Returns None, st)
                     | Some group1 \<Rightarrow>
                         (case py_float group1 of
                            Some angle \<Rightarrow> (Returns (Some angle), st)
                          | None \<Rightarrow> (Returns None, print (WarningMTFlipAngle group1) st))))))"

section \<open>\<open>patch_json\<close>\<close>

text \<open>\<open>rglob('*<word>*.json')\<close>: the names that end in \<open>.json\<close> and have the word
  before that ending.\<close>

definition glob_json :: "string \<Rightarrow> string \<Rightarrow> bool" where
  "glob_json word name =
     (suffix ''.json'' name \<and> sublist word (take (length name - 5) name))"

definition rglob_json :: "string \<Rightarrow> 'f state \<Rightarrow> string list" where
  "rglob_json word st = filter (glob_json word) (iterdir st)"

text \<open>Modelled from the spec: \<open>bic_util.json.update_json\<close>, the spec's ``generic
  JSON-merge'', whose source is not part of the files at hand (``merge is
  additive/overwriting on the named keys only; unrelated keys untouched'').  The object
  in the file is updated with the given pairs as a dictionary is (an existing key gets
  the new value, a new key is added) and written back.  The call raises for a file that
  is missing or holds no JSON object.\<close>

definition dict_update :: "(string \<times> 'v) list \<Rightarrow> (string \<times> 'v) list \<Rightarrow> (string \<times> 'v) list" where
  "dict_update doc pairs = foldl (\<lambda>d p. AList.update (fst p) (snd p) d) doc pairs"

definition update_json ::
  "string \<Rightarrow> (string \<times> 'f json) list \<Rightarrow> 'f state \<Rightarrow> unit result \<times> 'f state" where
  "update_json path pairs st =
     (case map_of (files st) path of
        None \<Rightarrow> (Raises OSError, st)
      | Some OtherFile \<Rightarrow> (Raises JSONError, st)
      | Some (JsonFile doc) \<Rightarrow>
          (Returns (), st\<lparr>files := AList.update path (JsonFile (dict_update doc pairs)) (files st)\<rparr>))"

text \<open>One step after the other, as long as none raises.\<close>

definition and_then ::
  "unit result \<times> 's \<Rightarrow> ('s \<Rightarrow> unit result \<times> 's) \<Rightarrow> unit result \<times> 's" where
  "and_then r next_step =
     (case r of (Returns _, st) \<Rightarrow> next_step st | (Raises e, st) \<Rightarrow> (Raises e, st))"

text \<open>Lines 125--130: the body of the last loop of \<open>patch_json\<close>.\<close>

definition patch_mt_flip_angle ::
  "(string \<Rightarrow> 'f option) \<Rightarrow> (string \<Rightarrow> dataset option) \<Rightarrow> 'i DicomSeriesInfo
     \<Rightarrow> string \<Rightarrow> 'f state \<Rightarrow> unit result \<times> 'f state" where
  "patch_mt_flip_angle py_float dcmread dicom_series json_path st =
     (case get_mt_flip_angle py_float dcmread dicom_series st of
        (Raises e, st') \<Rightarrow> (Raises e, st')
      | (Returns None, st') \<Rightarrow> (Returns (), st')
      | (Returns (Some mt_flip_angle), st') \<Rightarrow>
          update_json json_path [(''MTFlipAngle'', JFloat mt_flip_angle)] st')"

text \<open>Lines 101--130.\<close>

definition patch_json ::
  "(string \<Rightarrow> 'f option) \<Rightarrow> (string \<Rightarrow> dataset option) \<Rightarrow> 'i DicomSeriesInfo
     \<Rightarrow> 'f state \<Rightarrow> unit result \<times> 'f state" where
  "patch_json py_float dcmread dicom_series st =
     and_then
       (for_each (\<lambda>json_path. update_json json_path [(''Units'', JString ''rad'')])
          (rglob_json ''part-phase'' st) st)
       (\<lambda>st1. and_then
          (for_each (\<lambda>json_path. update_json json_path [(''MTState'', JBool False)])
             (rglob_json ''mt-off'' st1) st1)
          (\<lambda>st2. and_then
             (for_each (\<lambda>json_path. update_json json_path [(''MTState'', JBool True)])
                (rglob_json ''mt-on'' st2) st2)
             (\<lambda>st3.
                for_each (patch_mt_flip_angle py_float dcmread dicom_series)
                  (rglob_json ''neuromelaninMTw'' st3) st3)))"

section \<open>Conditions on a parsed name\<close>

text \<open>Lines 35 and 41: the file is superfluous, and \<open>patch_file_path\<close> removes it.\<close>

definition is_superfluous :: "BidsName \<Rightarrow> bool" where
  "is_superfluous b =
     ((has ''MP2RAGE'' b \<and> (extension b = ''bval'' \<or> extension b = ''bvec''))
      \<or> has ''ROI1'' b)"


text \<open>None of the rules of lines 53 to 84 applies to the name: the conditions of their
  seven \<open>if\<close>s are all false.\<close>

definition settled :: "BidsName \<Rightarrow> bool" where
  "settled b =
     (\<not> (has ''echo'' b \<and> has ''run'' b \<and> \<not> has_value ''task'' ''rest'' b)
      \<and> \<not> (has_value ''acq'' ''mtw'' b \<and> has ''run'' b)
      \<and> \<not> has ''ph'' b
      \<and> \<not> (has ''T2starw'' b \<and> has ''echo'' b \<and> \<not> has ''part'' b)
      \<and> \<not> (has_value ''acq'' ''aspire'' b \<and> has ''T2starw'' b
            \<and> \<not> has ''desc'' b \<and> \<not> has ''part'' b)
      \<and> \<not> (has ''dwi'' b \<and> has_value ''run'' ''1'' b)
      \<and> \<not> (has ''dwi'' b \<and> has_value ''run'' ''2'' b))"

section \<open>Reading the sidecars\<close>

text \<open>The JSON object a file of the directory holds, if it holds one, and the value of
  a key in it.\<close>

definition json_object :: "'f state \<Rightarrow> string \<Rightarrow> (string \<times> 'f json) list option" where
  "json_object st name =
     (case map_of (files st) name of Some (JsonFile doc) \<Rightarrow> Some doc | _ \<Rightarrow> None)"

definition field :: "'f state \<Rightarrow> string \<Rightarrow> string \<Rightarrow> 'f json option" where
  "field st name key =
     (case json_object st name of Some doc \<Rightarrow> map_of doc key | None \<Rightarrow> None)"

text \<open>The MT flip angle that \<open>get_mt_flip_angle\<close> resolves for a series, if it resolves
  one: its result does not depend on the directory.\<close>

definition resolved_mt_flip_angle ::
  "(string \<Rightarrow> 'f option) \<Rightarrow> (string \<Rightarrow> dataset option) \<Rightarrow> 'i DicomSeriesInfo \<Rightarrow> 'f option" where
  "resolved_mt_flip_angle py_float dcmread dicom_series =
     (case fst (get_mt_flip_angle py_float dcmread dicom_series
                  (\<lparr>files = [], console = []\<rparr> :: unit state)) of
        Returns v \<Rightarrow> v
      | Raises e \<Rightarrow> None)"

text \<open>The changes of a sidecar that \<open>patch_json\<close> can make: the value \<open>v\<close> for the key
  of the file of that name, where \<open>angle\<close> is the resolved MT flip angle.\<close>

definition allowed_change :: "'f option \<Rightarrow> string \<Rightarrow> string \<Rightarrow> 'f json option \<Rightarrow> bool" where
  "allowed_change angle name key v =
     ((key = ''Units'' \<and> glob_json ''part-phase'' name \<and> v = Some (JString ''rad''))
      \<or> (key = ''MTState'' \<and> glob_json ''mt-off'' name \<and> v = Some (JBool False))
      \<or> (key = ''MTState'' \<and> glob_json ''mt-on'' name \<and> v = Some (JBool True))
      \<or> (key = ''MTFlipAngle'' \<and> glob_json ''neuromelaninMTw'' name
            \<and> (\<exists>a. angle = Some a \<and> v = Some (JFloat a))))"

text \<open>What \<open>patch_json\<close> leaves as it is between two states: the names of the
  directory, the files that hold no JSON object, the fact that a file holds one, and
  every value of every key but for the allowed changes.\<close>

definition sidecar_frame :: "'f option \<Rightarrow> 'f state \<Rightarrow> 'f state \<Rightarrow> bool" where
  "sidecar_frame angle st st' =
     (iterdir st' = iterdir st
      \<and> (\<forall>name. json_object st name = None \<longrightarrow>
                   map_of (files st') name = map_of (files st) name)
      \<and> (\<forall>name. json_object st name \<noteq> None \<longrightarrow> json_object st' name \<noteq> None)
      \<and> (\<forall>name key. field st' name key = field st name key
                       \<or> allowed_change angle name key (field st' name key)))"

text \<open>One of the four patterns of \<open>patch_json\<close> matches the name.\<close>

definition is_patched_sidecar :: "string \<Rightarrow> bool" where
  "is_patched_sidecar name =
     (glob_json ''part-phase'' name \<or> glob_json ''mt-off'' name
      \<or> glob_json ''mt-on'' name \<or> glob_json ''neuromelaninMTw'' name)"

section \<open>Names that are read back as they are written\<close>

text \<open>A string without the two delimiters that end a component.\<close>

definition separator_free :: "string \<Rightarrow> bool" where
  "separator_free s = (CHR ''_'' \<notin> set s \<and> CHR ''.'' \<notin> set s)"

text \<open>The components of a structured name are clean: no key twice, no delimiter inside
  a key, and no \<open>_\<close> or \<open>.\<close> inside a value.\<close>

definition clean_parts :: "BidsName \<Rightarrow> bool" where
  "clean_parts b =
     (distinct (map fst (parts b))
      \<and> (\<forall>p\<in>set (parts b).
            separator_free (fst p) \<and> CHR ''-'' \<notin> set (fst p)
            \<and> (\<forall>w. snd p = Some w \<longrightarrow> separator_free w)))"

text \<open>A structured name as parsing gives it: clean components, and at least one.\<close>

definition well_formed :: "BidsName \<Rightarrow> bool" where
  "well_formed b = (parts b \<noteq> [] \<and> clean_parts b)"

section \<open>Properties of the structured file name and of the rules\<close>

lemma has_add [simp]: "has k (add k' v b) = (k = k' \<or> has k b)"
  by (auto simp: has_def add_def AList.update_conv')

lemma has_remove_part [simp]: "has k (remove_part k' b) = (k \<noteq> k' \<and> has k b)"
  by (auto simp: has_def remove_part_def AList.delete_conv')

lemma has_value_add [simp]:
  "has_value k v (add k' v' b) = (if k = k' then v' = Some v else has_value k v b)"
  by (auto simp: has_value_def add_def AList.update_conv')

lemma has_value_remove_part [simp]:
  "has_value k v (remove_part k' b) = (k \<noteq> k' \<and> has_value k v b)"
  by (auto simp: has_value_def remove_part_def AList.delete_conv')

lemma get_add [simp]: "get k (add k' v b) = (if k = k' then v else get k b)"
  by (auto simp: get_def add_def AList.update_conv' split: option.splits)

lemma get_remove_part [simp]:
  "get k (remove_part k' b) = (if k = k' then None else get k b)"
  by (auto simp: get_def remove_part_def AList.delete_conv' split: option.splits)

lemma extension_add [simp]: "extension (add k v b) = extension b"
  by (simp add: add_def)

lemma extension_remove_part [simp]: "extension (remove_part k b) = extension b"
  by (simp add: remove_part_def)

lemma has_value_has: "has_value k v b \<Longrightarrow> has k b"
  by (simp add: has_value_def has_def)

lemma get_has_value: "(get k b = Some v) = has_value k v b"
  by (auto simp: get_def has_value_def split: option.splits)

lemma get_None_no_value: "get k b = None \<Longrightarrow> \<not> has_value k v b"
  by (auto simp: get_def has_value_def split: option.splits)

lemma not_has_get: "\<not> has k b \<Longrightarrow> get k b = None"
  by (simp add: has_def get_def)

lemma remove_part_absent: "\<not> has k b \<Longrightarrow> remove_part k b = b"
  by (simp add: has_def remove_part_def map_of_eq_None_iff)

text \<open>What the rules before TB1TFL leave alone.\<close>

lemma rule_echo_other:
  assumes "k \<noteq> ''echo''" and "\<And>d. k \<noteq> [CHR ''e'', d]"
  shows "has k (rule_echo b) = has k b"
    and "has_value k v (rule_echo b) = has_value k v b"
    and "get k (rule_echo b) = get k b"
  using assms by (simp_all add: rule_echo_def split: option.splits)


lemma rule_echo_extension [simp]: "extension (rule_echo b) = extension b"
  by (simp add: rule_echo_def split: option.splits)

lemma rule_echo_run_other:
  assumes "k \<noteq> ''run''"
  shows "has k (rule_echo_run b) = has k b"
    and "has_value k v (rule_echo_run b) = has_value k v b"
    and "get k (rule_echo_run b) = get k b"
  using assms by (simp_all add: rule_echo_run_def)

lemma rule_mtw_run_other:
  assumes "k \<noteq> ''run''"
  shows "has k (rule_mtw_run b) = has k b"
    and "has_value k v (rule_mtw_run b) = has_value k v b"
    and "get k (rule_mtw_run b) = get k b"
  using assms by (simp_all add: rule_mtw_run_def)

lemma rule_ph_other:
  assumes "k \<noteq> ''ph''" and "k \<noteq> ''part''"
  shows "has k (rule_ph b) = has k b"
    and "has_value k v (rule_ph b) = has_value k v b"
    and "get k (rule_ph b) = get k b"
  using assms by (simp_all add: rule_ph_def)

lemma rule_part_mag_other:
  assumes "k \<noteq> ''part''"
  shows "has k (rule_part_mag b) = has k b"
    and "has_value k v (rule_part_mag b) = has_value k v b"
    and "get k (rule_part_mag b) = get k b"
  using assms by (simp_all add: rule_part_mag_def)

lemma rule_t2starmap_other:
  assumes "k \<noteq> ''run''" and "k \<noteq> ''T2starw''" and "k \<noteq> ''T2starmap''"
  shows "has k (rule_t2starmap b) = has k b"
    and "has_value k v (rule_t2starmap b) = has_value k v b"
    and "get k (rule_t2starmap b) = get k b"
  using assms by (simp_all add: rule_t2starmap_def)

lemma rule_dwi_run1_other:
  assumes "k \<noteq> ''run''"
  shows "has k (rule_dwi_run1 b) = has k b"
    and "has_value k v (rule_dwi_run1 b) = has_value k v b"
    and "get k (rule_dwi_run1 b) = get k b"
  using assms by (simp_all add: rule_dwi_run1_def)

lemma rule_dwi_run2_other:
  assumes "k \<noteq> ''run''" and "k \<noteq> ''part''"
  shows "has k (rule_dwi_run2 b) = has k b"
    and "has_value k v (rule_dwi_run2 b) = has_value k v b"
    and "get k (rule_dwi_run2 b) = get k b"
  using assms by (simp_all add: rule_dwi_run2_def)

lemmas rule_other =
  rule_echo_other rule_echo_run_other rule_mtw_run_other rule_ph_other rule_part_mag_other
  rule_t2starmap_other rule_dwi_run1_other rule_dwi_run2_other

lemma rule_extension [simp]:
  "extension (rule_echo_run b) = extension b"
  "extension (rule_mtw_run b) = extension b"
  "extension (rule_ph b) = extension b"
  "extension (rule_part_mag b) = extension b"
  "extension (rule_t2starmap b) = extension b"
  "extension (rule_dwi_run1 b) = extension b"
  "extension (rule_dwi_run2 b) = extension b"
  by (simp_all add: rule_echo_run_def rule_mtw_run_def rule_ph_def rule_part_mag_def
      rule_t2starmap_def rule_dwi_run1_def rule_dwi_run2_def)

lemma extension_rules_before [simp]: "extension (rules_before_tb1tfl b) = extension b"
  by (simp add: rules_before_tb1tfl_def)

lemma has_tb1tfl_rules_before [simp]:
  "has ''TB1TFL'' (rules_before_tb1tfl b) = has ''TB1TFL'' b"
  by (simp add: rules_before_tb1tfl_def rule_other)


section \<open>The arithmetic of the TB1TFL rule\<close>

text \<open>Below \<open>2 ^ 53\<close> every integer is a double, and \<open>math.ceil(n / 2)\<close> is the exact
  ceiling of the half, \<open>(n + 1) div 2\<close>.\<close>

lemma bit_length_le: "m < 2 ^ j \<Longrightarrow> bit_length m \<le> j"
proof (induction j arbitrary: m)
  case 0
  then show ?case by (simp add: bit_length.simps)
next
  case (Suc j)
  have "m div 2 < 2 ^ j" using Suc.prems by simp
  then have "bit_length (m div 2) \<le> j" by (rule Suc.IH)
  then show ?case by (subst bit_length.simps) simp
qed

lemma round_double_exact: "m < 2 ^ 53 \<Longrightarrow> round_double m = m"
  using bit_length_le [of m 53] by (simp add: round_double_def)

lemma ceil_half_exact:
  assumes "\<bar>n\<bar> < 2 ^ 53"
  shows "ceil_half n = Inr ((n + 1) div 2)"
proof -
  have m: "nat \<bar>n\<bar> < 2 ^ 53"
    using assms by (simp add: nat_less_iff)
  have r: "round_double (nat \<bar>n\<bar>) = nat \<bar>n\<bar>"
    using m by (rule round_double_exact)
  have "bit_length (nat \<bar>n\<bar>) \<le> 53"
    using m by (rule bit_length_le)
  then have b: "\<not> 1025 < bit_length (nat \<bar>n\<bar>)" by simp
  have "(if 0 \<le> n then (int (nat \<bar>n\<bar>) + 1) div 2 else - (int (nat \<bar>n\<bar>) div 2))
          = (n + 1) div 2"
    by auto
  then show ?thesis
    using b by (simp only: ceil_half_def r Let_def if_False)
qed


section \<open>The echo/run rule\<close>

text \<open>
  Claim C5.  For a parsed name that has both an \<open>echo\<close> and a \<open>run\<close> component, the
  rule of lines 53--54 keeps the name as it is, \<open>run\<close> included, when it has
  \<open>task-rest\<close>; when its task is anything else, or it has no task, the rule takes
  \<open>run\<close> away (and nothing else).
\<close>

theorem echo_run_rule_spares_task_rest:
  assumes "has ''echo'' b" and "has ''run'' b"
  shows "(has_value ''task'' ''rest'' b \<longrightarrow>
            rule_echo_run b = b \<and> has ''run'' (rule_echo_run b))
       \<and> (\<not> has_value ''task'' ''rest'' b \<longrightarrow>
            rule_echo_run b = remove_part ''run'' b \<and> \<not> has ''run'' (rule_echo_run b))"
  using assms by (simp add: rule_echo_run_def)

theorem echo_run_rule_spares_task_rest_witness:
  "has ''echo'' (from_string ''sub-01_task-rest_run-2_echo-1_bold.nii.gz'')
   \<and> has ''run'' (from_string ''sub-01_task-rest_run-2_echo-1_bold.nii.gz'')
   \<and> has ''run'' (rule_echo_run (from_string ''sub-01_task-rest_run-2_echo-1_bold.nii.gz''))
   \<and> has ''echo'' (from_string ''sub-01_task-motor_run-2_echo-1_bold.nii.gz'')
   \<and> has ''run'' (from_string ''sub-01_task-motor_run-2_echo-1_bold.nii.gz'')
   \<and> \<not> has ''run'' (rule_echo_run (from_string ''sub-01_task-motor_run-2_echo-1_bold.nii.gz''))"
proof -
  let ?rest = "from_string ''sub-01_task-rest_run-2_echo-1_bold.nii.gz''"
  let ?motor = "from_string ''sub-01_task-motor_run-2_echo-1_bold.nii.gz''"
  have e1: "has ''echo'' ?rest" and r1: "has ''run'' ?rest"
    and t1: "has_value ''task'' ''rest'' ?rest"
    by code_simp+
  have e2: "has ''echo'' ?motor" and r2: "has ''run'' ?motor"
    and t2: "\<not> has_value ''task'' ''rest'' ?motor"
    by code_simp+
  show ?thesis
    using echo_run_rule_spares_task_rest [OF e1 r1] echo_run_rule_spares_task_rest [OF e2 r2]
      e1 r1 t1 e2 r2 t2
    by simp
qed

section \<open>Superfluous files\<close>

text \<open>
  Claim C3.  A file of the directory whose parsed name has the \<open>MP2RAGE\<close> marker and
  whose extension is \<open>bval\<close> or \<open>bvec\<close> is deleted by \<open>patch_file_path\<close>: the call
  returns, the file is gone, every other file is as it was, and the only notice is the
  one of the removal, so that no rule was applied and nothing was renamed.
\<close>

theorem mp2rage_gradient_table_removed:
  assumes "has ''MP2RAGE'' (from_string name)"
    and "extension (from_string name) = ''bval'' \<or> extension (from_string name) = ''bvec''"
    and "name \<in> set (iterdir st)"
  shows "patch_file_path name st =
           (Returns (),
            st\<lparr>files := AList.delete name (files st),
               console := console st @ [RemoveMP2RAGE name]\<rparr>)"
  using assms by (auto simp: patch_file_path_def unlink_def print_def iterdir_def)

theorem mp2rage_gradient_table_removed_witness:
  "has ''MP2RAGE'' (from_string ''sub-01_inv-1_MP2RAGE.bval'')
   \<and> extension (from_string ''sub-01_inv-1_MP2RAGE.bval'') = ''bval''
   \<and> patch_file_path ''sub-01_inv-1_MP2RAGE.bval''
        \<lparr>files = [(''sub-01_inv-1_MP2RAGE.nii.gz'', OtherFile :: unit content),
                  (''sub-01_inv-1_MP2RAGE.bval'', OtherFile)],
         console = []\<rparr>
     = (Returns (),
        \<lparr>files = [(''sub-01_inv-1_MP2RAGE.nii.gz'', OtherFile)],
         console = [RemoveMP2RAGE ''sub-01_inv-1_MP2RAGE.bval'']\<rparr>)"
proof -
  let ?n = "''sub-01_inv-1_MP2RAGE.bval''"
  let ?st = "\<lparr>files = [(''sub-01_inv-1_MP2RAGE.nii.gz'', OtherFile :: unit content),
                         (?n, OtherFile)], console = []\<rparr>"
  have h: "has ''MP2RAGE'' (from_string ?n)" by code_simp
  have x: "extension (from_string ?n) = ''bval''" by code_simp
  have i: "?n \<in> set (iterdir ?st)" by (simp add: iterdir_def)
  show ?thesis
    using mp2rage_gradient_table_removed [OF h disjI1 [OF x] i] h x by simp
qed

section \<open>The TB1TFL rule\<close>

lemma patch_file_path_kept:
  assumes "\<not> is_superfluous (from_string name)"
  shows "patch_file_path name st =
           (case new_file_name name of
              Inl e \<Rightarrow> (Raises e, st)
            | Inr new_name \<Rightarrow> rename_if_changed name new_name st)"
  using assms by (auto simp: patch_file_path_def is_superfluous_def)


text \<open>The no-break space (160) around a literal is skipped, the separator 28 is not.\<close>

lemma py_int_white_space:
  "py_int [char_of (160 :: nat), CHR ''3''] = Some 3
   \<and> py_int [char_of (28 :: nat), CHR ''3''] = None"
  by code_simp
lemma py_str_0: "py_str 0 = ''0''" by code_simp






lemma py_int_above_double_range: "py_int ''9007199254740993'' = Some 9007199254740993"
  by code_simp






text \<open>
  Claim C9, as stated, fails: a TB1TFL name with \<open>run-x\<close> that is also an \<open>ROI1\<close> name
  is deleted, and one that also has an echo loses \<open>run\<close> to the echo rule before the
  TB1TFL rule reads it, and is renamed.  Neither call raises.
\<close>

theorem tb1tfl_bad_run_counterexample:
  "has ''TB1TFL'' (from_string ''sub-01_run-x_TB1TFL_ROI1.nii.gz'')
   \<and> get ''run'' (from_string ''sub-01_run-x_TB1TFL_ROI1.nii.gz'') = Some ''x''
   \<and> py_int ''x'' = None
   \<and> patch_file_path ''sub-01_run-x_TB1TFL_ROI1.nii.gz''
        \<lparr>files = [(''sub-01_run-x_TB1TFL_ROI1.nii.gz'', OtherFile :: unit content)],
         console = []\<rparr>
      = (Returns (),
         \<lparr>files = [], console = [RemoveROI ''sub-01_run-x_TB1TFL_ROI1.nii.gz'']\<rparr>)
   \<and> has ''TB1TFL'' (from_string ''sub-01_echo-1_run-x_TB1TFL.nii.gz'')
   \<and> get ''run'' (from_string ''sub-01_echo-1_run-x_TB1TFL.nii.gz'') = Some ''x''
   \<and> patch_file_path ''sub-01_echo-1_run-x_TB1TFL.nii.gz''
        \<lparr>files = [(''sub-01_echo-1_run-x_TB1TFL.nii.gz'', OtherFile :: unit content)],
         console = []\<rparr>
      = (Returns (),
         \<lparr>files = [(''sub-01_echo-1_TB1TFL_acq-sfam_run-0.nii.gz'', OtherFile)],
          console = [Renaming ''sub-01_echo-1_run-x_TB1TFL.nii.gz''
                       ''sub-01_echo-1_TB1TFL_acq-sfam_run-0.nii.gz'']\<rparr>)"
  by code_simp

text \<open>
  Claim C9, amended.  For a file that is not removed as superfluous, whose parsed name
  has the TB1TFL marker and whose \<open>run\<close> component, as the rules before the TB1TFL rule
  leave it, has a non-empty value that is not an integer literal, \<open>patch_file_path\<close>
  raises \<open>ValueError\<close>, and the directory and the console are as they were: the file is
  neither renamed nor deleted.
\<close>

theorem tb1tfl_bad_run_raises:
  assumes "\<not> is_superfluous (from_string name)"
    and "has ''TB1TFL'' (from_string name)"
    and "get ''run'' (rules_before_tb1tfl (from_string name)) = Some v"
    and "v \<noteq> []"
    and "py_int v = None"
  shows "patch_file_path name st = (Raises ValueError, st)"
proof -
  have "run_number_of (rules_before_tb1tfl (from_string name)) = Inl ValueError"
    using assms(3,4,5) by (simp add: run_number_of_def)
  then have "rename_rules (from_string name) = Inl ValueError"
    using assms(2) by (simp add: rename_rules_def rule_tb1tfl_def)
  then show ?thesis
    by (simp add: patch_file_path_kept [OF assms(1)] new_file_name_def)
qed

theorem tb1tfl_bad_run_raises_witness:
  "\<not> is_superfluous (from_string ''sub-01_run-x_TB1TFL.nii.gz'')
   \<and> has ''TB1TFL'' (from_string ''sub-01_run-x_TB1TFL.nii.gz'')
   \<and> get ''run'' (rules_before_tb1tfl (from_string ''sub-01_run-x_TB1TFL.nii.gz'')) = Some ''x''
   \<and> py_int ''x'' = None
   \<and> patch_file_path ''sub-01_run-x_TB1TFL.nii.gz''
        \<lparr>files = [(''sub-01_run-x_TB1TFL.nii.gz'', OtherFile :: unit content)], console = []\<rparr>
      = (Raises ValueError,
         \<lparr>files = [(''sub-01_run-x_TB1TFL.nii.gz'', OtherFile)], console = []\<rparr>)"
proof -
  let ?n = "''sub-01_run-x_TB1TFL.nii.gz''"
  have s: "\<not> is_superfluous (from_string ?n)" by code_simp
  have t: "has ''TB1TFL'' (from_string ?n)" by code_simp
  have g: "get ''run'' (rules_before_tb1tfl (from_string ?n)) = Some ''x''" by code_simp
  have e: "''x'' \<noteq> []" by simp
  have i: "py_int ''x'' = None" by code_simp
  show ?thesis
    using tb1tfl_bad_run_raises [OF s t g e i] s t g i by simp
qed

section \<open>The MT flip angle\<close>

text \<open>
  Claim C10.  \<open>get_mt_flip_angle\<close> reads the first entry of the file paths of the series
  without a check: for a series without file paths it raises \<open>IndexError\<close> (it does not
  return "no value"), and for any other series the result is that of the series cut
  down to its first path.
\<close>

theorem get_mt_flip_angle_needs_first_path:
  "(file_paths dicom_series = [] \<longrightarrow>
      get_mt_flip_angle py_float dcmread dicom_series st = (Raises IndexError, st))
   \<and> (\<forall>path rest. file_paths dicom_series = path # rest \<longrightarrow>
         get_mt_flip_angle py_float dcmread dicom_series st
         = get_mt_flip_angle py_float dcmread (dicom_series\<lparr>file_paths := [path]\<rparr>) st)"
  by (simp add: get_mt_flip_angle_def)

theorem get_mt_flip_angle_needs_first_path_witness:
  "file_paths \<lparr>series_id = (), file_paths = []\<rparr> = []
   \<and> get_mt_flip_angle (\<lambda>s. None :: unit option) (\<lambda>p. None)
        \<lparr>series_id = (), file_paths = []\<rparr> \<lparr>files = [] :: (string \<times> unit content) list, console = []\<rparr>
      = (Raises IndexError, \<lparr>files = [], console = []\<rparr>)"
  using get_mt_flip_angle_needs_first_path
    [of "\<lparr>series_id = (), file_paths = []\<rparr>" "\<lambda>s. None :: unit option" "\<lambda>p. None"
        "\<lparr>files = [] :: (string \<times> unit content) list, console = []\<rparr>"]
  by simp

text \<open>
  Claim C6, as stated, fails: \<open>get_mt_flip_angle\<close> raises for a series without file
  paths, and for a series whose first file cannot be read.
\<close>

theorem get_mt_flip_angle_raises_counterexample:
  "get_mt_flip_angle (\<lambda>s. None :: unit option) (\<lambda>p. None)
     \<lparr>series_id = (), file_paths = []\<rparr> \<lparr>files = [] :: (string \<times> unit content) list, console = []\<rparr>
   = (Raises IndexError, \<lparr>files = [], console = []\<rparr>)
   \<and> get_mt_flip_angle (\<lambda>s. None :: unit option) (\<lambda>p. None)
     \<lparr>series_id = (), file_paths = [''1.dcm'']\<rparr> \<lparr>files = [] :: (string \<times> unit content) list, console = []\<rparr>
   = (Raises DicomReadError, \<lparr>files = [], console = []\<rparr>)"
  by (simp add: get_mt_flip_angle_def)

text \<open>
  Claim C6, amended.  Once the first file of the series has been read,
  \<open>get_mt_flip_angle\<close> does not raise: without the CSA block (tag \<open>(0029, 1020)\<close>) it
  returns no value and writes nothing; when the parameter pattern does not match the
  block it returns no value and writes nothing; when the matched text is not a
  floating-point number it writes one warning and returns no value; and when it is one,
  that number is returned.
\<close>

theorem get_mt_flip_angle_total:
  assumes "file_paths dicom_series = path # rest"
    and "dcmread path = Some dicom"
  shows "(dicom (0x0029, 0x1020) = None \<longrightarrow>
            get_mt_flip_angle py_float dcmread dicom_series st = (Returns None, st))
       \<and> (\<forall>csa. dicom (0x0029, 0x1020) = Some csa \<and> search_mt_flip_angle csa = None \<longrightarrow>
            get_mt_flip_angle py_float dcmread dicom_series st = (Returns None, st))
       \<and> (\<forall>csa g. dicom (0x0029, 0x1020) = Some csa \<and> search_mt_flip_angle csa = Some g
              \<and> py_float g = None \<longrightarrow>
            get_mt_flip_angle py_float dcmread dicom_series st
            = (Returns None, st\<lparr>console := console st @ [WarningMTFlipAngle g]\<rparr>))
       \<and> (\<forall>csa g a. dicom (0x0029, 0x1020) = Some csa \<and> search_mt_flip_angle csa = Some g
              \<and> py_float g = Some a \<longrightarrow>
            get_mt_flip_angle py_float dcmread dicom_series st = (Returns (Some a), st))
       \<and> (\<forall>e. fst (get_mt_flip_angle py_float dcmread dicom_series st) \<noteq> Raises e)"
  using assms by (auto simp: get_mt_flip_angle_def print_def split: option.splits)

theorem get_mt_flip_angle_total_witness:
  "search_mt_flip_angle (mt_flip_angle_prefix @ ''abc'' @ [backslash, CHR ''n'']) = Some ''abc''
   \<and> get_mt_flip_angle (\<lambda>s. None :: unit option)
        (\<lambda>p. if p = ''1.dcm''
              then Some (\<lambda>tag. if tag = (0x0029, 0x1020)
                                then Some (mt_flip_angle_prefix @ ''abc'' @ [backslash, CHR ''n''])
                                else None)
              else None)
        \<lparr>series_id = (), file_paths = [''1.dcm'', ''2.dcm'']\<rparr>
        \<lparr>files = [] :: (string \<times> unit content) list, console = []\<rparr>
      = (Returns None, \<lparr>files = [], console = [WarningMTFlipAngle ''abc'']\<rparr>)"
proof -
  let ?csa = "mt_flip_angle_prefix @ ''abc'' @ [backslash, CHR ''n'']"
  let ?dicom = "\<lambda>tag :: nat \<times> nat. if tag = (0x0029, 0x1020) then Some ?csa else None"
  let ?dcmread = "\<lambda>p. if p = ''1.dcm'' then Some ?dicom else None"
  let ?series = "\<lparr>series_id = (), file_paths = [''1.dcm'', ''2.dcm'']\<rparr>"
  have g: "search_mt_flip_angle ?csa = Some ''abc''" by code_simp
  have p: "file_paths ?series = ''1.dcm'' # [''2.dcm'']" by simp
  have d: "?dcmread ''1.dcm'' = Some ?dicom" by simp
  show ?thesis
    using get_mt_flip_angle_total [where dicom_series = ?series and path = "''1.dcm''"
        and rest = "[''2.dcm'']" and dcmread = ?dcmread and dicom = ?dicom
        and py_float = "\<lambda>s. None :: unit option"
        and st = "\<lparr>files = [] :: (string \<times> unit content) list, console = []\<rparr>", OF p d] g
    by simp
qed

section \<open>Applying the rules a second time\<close>

lemma settled_fixed:
  assumes "settled x"
  shows "rule_echo_run x = x" and "rule_mtw_run x = x" and "rule_ph x = x"
    and "rule_part_mag x = x" and "rule_t2starmap x = x"
    and "rule_dwi_run1 x = x" and "rule_dwi_run2 x = x"
  using assms
  by (auto simp: settled_def rule_echo_run_def rule_mtw_run_def rule_ph_def
      rule_part_mag_def rule_t2starmap_def rule_dwi_run1_def rule_dwi_run2_def)

lemma settled_after_rules:
  "settled (rule_dwi_run2 (rule_dwi_run1 (rule_t2starmap (rule_part_mag (rule_ph
     (rule_mtw_run (rule_echo_run x)))))))"
proof -
  define s4 where "s4 = rule_echo_run x"
  define s5 where "s5 = rule_mtw_run s4"
  define s6 where "s6 = rule_ph s5"
  define s7 where "s7 = rule_part_mag s6"
  define s8 where "s8 = rule_t2starmap s7"
  define s9 where "s9 = rule_dwi_run1 s8"
  define s10 where "s10 = rule_dwi_run2 s9"
  have a4: "\<not> (has ''echo'' s4 \<and> has ''run'' s4 \<and> \<not> has_value ''task'' ''rest'' s4)"
    by (simp add: s4_def rule_echo_run_def)
  have a5: "\<not> (has ''echo'' s5 \<and> has ''run'' s5 \<and> \<not> has_value ''task'' ''rest'' s5)"
    and b5: "\<not> (has_value ''acq'' ''mtw'' s5 \<and> has ''run'' s5)"
    using a4 by (auto simp: s5_def rule_mtw_run_def)
  have a6: "\<not> (has ''echo'' s6 \<and> has ''run'' s6 \<and> \<not> has_value ''task'' ''rest'' s6)"
    and b6: "\<not> (has_value ''acq'' ''mtw'' s6 \<and> has ''run'' s6)"
    and c6: "\<not> has ''ph'' s6"
    using a5 b5 by (auto simp: s6_def rule_ph_def)
  have a7: "\<not> (has ''echo'' s7 \<and> has ''run'' s7 \<and> \<not> has_value ''task'' ''rest'' s7)"
    and b7: "\<not> (has_value ''acq'' ''mtw'' s7 \<and> has ''run'' s7)"
    and c7: "\<not> has ''ph'' s7"
    and d7: "\<not> (has ''T2starw'' s7 \<and> has ''echo'' s7 \<and> \<not> has ''part'' s7)"
    using a6 b6 c6 by (auto simp: s7_def rule_part_mag_def)
  have a8: "\<not> (has ''echo'' s8 \<and> has ''run'' s8 \<and> \<not> has_value ''task'' ''rest'' s8)"
    and b8: "\<not> (has_value ''acq'' ''mtw'' s8 \<and> has ''run'' s8)"
    and c8: "\<not> has ''ph'' s8"
    and d8: "\<not> (has ''T2starw'' s8 \<and> has ''echo'' s8 \<and> \<not> has ''part'' s8)"
    and e8: "\<not> (has_value ''acq'' ''aspire'' s8 \<and> has ''T2starw'' s8
                \<and> \<not> has ''desc'' s8 \<and> \<not> has ''part'' s8)"
    using a7 b7 c7 d7 by (auto simp: s8_def rule_t2starmap_def)
  have a9: "\<not> (has ''echo'' s9 \<and> has ''run'' s9 \<and> \<not> has_value ''task'' ''rest'' s9)"
    and b9: "\<not> (has_value ''acq'' ''mtw'' s9 \<and> has ''run'' s9)"
    and c9: "\<not> has ''ph'' s9"
    and d9: "\<not> (has ''T2starw'' s9 \<and> has ''echo'' s9 \<and> \<not> has ''part'' s9)"
    and e9: "\<not> (has_value ''acq'' ''aspire'' s9 \<and> has ''T2starw'' s9
                \<and> \<not> has ''desc'' s9 \<and> \<not> has ''part'' s9)"
    and f9: "\<not> (has ''dwi'' s9 \<and> has_value ''run'' ''1'' s9)"
    using a8 b8 c8 d8 e8 by (auto simp: s9_def rule_dwi_run1_def)
  have "settled s10"
    using a9 b9 c9 d9 e9 f9 by (auto simp: settled_def s10_def rule_dwi_run2_def)
  then show ?thesis
    by (simp add: s10_def s9_def s8_def s7_def s6_def s5_def s4_def)
qed

lemma settled_rules_before: "settled (rules_before_tb1tfl b)"
  unfolding rules_before_tb1tfl_def by (rule settled_after_rules)

lemma rules_before_fixed:
  assumes "settled x" and "match_echo x = None"
  shows "rules_before_tb1tfl x = x"
  using assms by (simp add: rules_before_tb1tfl_def rule_echo_def settled_fixed)

lemma second_pass_without_tb1tfl:
  assumes "rename_rules b = Inr b'" and "\<not> has ''TB1TFL'' b" and "match_echo b' = None"
  shows "rename_rules b' = Inr b'"
proof -
  have b': "b' = rules_before_tb1tfl b"
    using assms(1,2) by (simp add: rename_rules_def rule_tb1tfl_def)
  have "settled b'"
    unfolding b' by (rule settled_rules_before)
  then have "rules_before_tb1tfl b' = b'"
    using assms(3) by (rule rules_before_fixed)
  moreover have "\<not> has ''TB1TFL'' b'"
    using assms(2) by (simp add: b')
  ultimately show ?thesis
    by (simp add: rename_rules_def rule_tb1tfl_def)
qed

lemma add_same: "has_value k v x \<Longrightarrow> add k (Some v) x = x"
  by (simp add: has_value_def add_def AList.update_triv)

lemma remove_part_add_absent: "\<not> has k x \<Longrightarrow> remove_part k (add k v x) = x"
  by (simp add: has_def remove_part_def add_def AList.delete_update_same map_of_eq_None_iff)

lemma add_add_same: "add k v (add k w x) = add k v x"
  by (simp add: add_def)

lemma has_dwi_rules_before [simp]: "has ''dwi'' (rules_before_tb1tfl b) = has ''dwi'' b"
  by (simp add: rules_before_tb1tfl_def rule_other)

lemma py_int_0: "py_int ''0'' = Some 0" by code_simp
lemma py_int_1: "py_int ''1'' = Some 1" by code_simp
lemma py_str_1: "py_str 1 = ''1''" by code_simp
lemma ceil_half_0: "ceil_half 0 = Inr 0" by (simp add: ceil_half_exact)
lemma ceil_half_1: "ceil_half 1 = Inr 1" by (simp add: ceil_half_exact)

lemma rule_tb1tfl_result:
  assumes "rule_tb1tfl s = Inr b'" and "has ''TB1TFL'' s"
  obtains n c where "run_number_of s = Inr n" and "ceil_half n = Inr c"
    and "b' = add ''run'' (Some (py_str c))
                (add ''acq'' (Some (if n mod 2 = 1 then ''anat'' else ''sfam'')) s)"
  using assms by (auto simp: rule_tb1tfl_def Let_def split: sum.splits)

lemma second_pass_with_tb1tfl:
  assumes "rename_rules b = Inr b'" and "has ''TB1TFL'' b" and "\<not> has ''dwi'' b"
    and "match_echo b' = None"
    and "(has_value ''run'' ''0'' b' \<and> has_value ''acq'' ''sfam'' b')
         \<or> (has_value ''run'' ''1'' b' \<and> has_value ''acq'' ''anat'' b')"
  shows "rename_rules b' = Inr b'"
proof -
  define s where "s = rules_before_tb1tfl b"
  have tb: "has ''TB1TFL'' s" and dwi: "\<not> has ''dwi'' s" and st: "settled s"
    using assms(2,3) by (simp_all add: s_def settled_rules_before)
  have "rule_tb1tfl s = Inr b'"
    using assms(1) by (simp add: rename_rules_def s_def)
  then obtain n c where n: "run_number_of s = Inr n" and c: "ceil_half n = Inr c"
    and b': "b' = add ''run'' (Some (py_str c))
                    (add ''acq'' (Some (if n mod 2 = 1 then ''anat'' else ''sfam'')) s)"
    using tb by (rule rule_tb1tfl_result)
  have acq: "has_value ''acq'' ''anat'' b' \<or> has_value ''acq'' ''sfam'' b'"
    by (simp add: b')
  have tb': "has ''TB1TFL'' b'"
    using tb by (simp add: b')
  show ?thesis
  proof (cases "has ''echo'' s \<and> \<not> has_value ''task'' ''rest'' s")
    case True
    then have norun: "\<not> has ''run'' s"
      using st by (auto simp: settled_def)
    then have "n = 0"
      using n by (simp add: run_number_of_def not_has_get)
    then have b0: "b' = add ''run'' (Some ''0'') (add ''acq'' (Some ''sfam'') s)"
      using c by (simp add: b' ceil_half_0 py_str_0)
    define t where "t = add ''acq'' (Some ''sfam'') s"
    have "rule_echo_run b' = remove_part ''run'' b'"
      using True by (simp add: rule_echo_run_def b0)
    also have "\<dots> = t"
      using norun by (simp add: b0 t_def remove_part_add_absent)
    finally have r4: "rule_echo_run b' = t" .
    have "settled t"
      using st norun by (auto simp: settled_def t_def dest: has_value_has)
    then have "rules_before_tb1tfl b' = t"
      using assms(4) by (simp add: rules_before_tb1tfl_def rule_echo_def r4 settled_fixed)
    moreover have "rule_tb1tfl t = Inr b'"
      using tb norun
      by (simp add: rule_tb1tfl_def run_number_of_def t_def ceil_half_0 py_str_0
          add_add_same b0 not_has_get)
    ultimately show ?thesis
      by (simp add: rename_rules_def)
  next
    case False
    have "settled b'"
      using st dwi False by (auto simp: settled_def b')
    then have fixed: "rules_before_tb1tfl b' = b'"
      using assms(4) by (rule rules_before_fixed)
    from assms(5) have "rule_tb1tfl b' = Inr b'"
    proof
      assume h: "has_value ''run'' ''0'' b' \<and> has_value ''acq'' ''sfam'' b'"
      then have "run_number_of b' = Inr 0"
        by (simp add: run_number_of_def get_has_value [symmetric] py_int_0)
      then show ?thesis
        using tb' h by (simp add: rule_tb1tfl_def ceil_half_0 py_str_0 add_same)
    next
      assume h: "has_value ''run'' ''1'' b' \<and> has_value ''acq'' ''anat'' b'"
      then have "run_number_of b' = Inr 1"
        by (simp add: run_number_of_def get_has_value [symmetric] py_int_1)
      then show ?thesis
        using tb' h by (simp add: rule_tb1tfl_def ceil_half_1 py_str_1 add_same)
    qed
    then show ?thesis
      by (simp add: rename_rules_def fixed)
  qed
qed

text \<open>The two cases together, on the parsed name.\<close>

lemma rules_second_pass:
  assumes "rename_rules b = Inr b'"
    and "match_echo b' = None"
    and "\<not> has ''TB1TFL'' b
         \<or> (\<not> has ''dwi'' b
             \<and> ((has_value ''run'' ''0'' b' \<and> has_value ''acq'' ''sfam'' b')
                  \<or> (has_value ''run'' ''1'' b' \<and> has_value ''acq'' ''anat'' b')))"
  shows "rename_rules b' = Inr b'"
  using assms second_pass_without_tb1tfl [of b b'] second_pass_with_tb1tfl [of b b']
  by blast

section \<open>The sidecar patches\<close>

lemma iterdir_print [simp]: "iterdir (print n st) = iterdir st"
  by (simp add: iterdir_def print_def)

lemma files_print [simp]: "files (print n st) = files st"
  by (simp add: print_def)

lemma for_each_preserves:
  assumes step: "\<And>x s r s'. x \<in> set xs \<Longrightarrow> body x s = (r, s') \<Longrightarrow> R s s'"
    and refl: "\<And>s. R s s"
    and trans: "\<And>a b c. R a b \<Longrightarrow> R b c \<Longrightarrow> R a c"
  shows "for_each body xs st = (r, st') \<Longrightarrow> R st st'"
  using step
proof (induction xs arbitrary: st)
  case Nil
  then show ?case by (simp add: refl)
next
  case (Cons x xs)
  show ?case
  proof (cases "body x st")
    case (Pair r1 s1)
    have first: "R st s1"
      using Cons.prems(2) [of x st r1 s1] Pair by simp
    show ?thesis
    proof (cases r1)
      case (Returns u)
      then have "for_each body xs s1 = (r, st')"
        using Cons.prems(1) Pair by simp
      then have "R s1 st'"
        using Cons.prems(2) by (intro Cons.IH) auto
      with first show ?thesis by (rule trans)
    next
      case (Raises e)
      then have "st' = s1"
        using Cons.prems(1) Pair by simp
      with first show ?thesis by simp
    qed
  qed
qed

lemma and_then_preserves:
  assumes "R st mid" and "\<And>r' s'. next_step mid = (r', s') \<Longrightarrow> R mid s'"
    and "\<And>a b c. R a b \<Longrightarrow> R b c \<Longrightarrow> R a c"
    and "and_then (first, mid) next_step = (r, st')"
  shows "R st st'"
proof (cases first)
  case (Returns u)
  then have "next_step mid = (r, st')"
    using assms(4) by (simp add: and_then_def)
  then have "R mid st'" by (rule assms(2))
  with assms(1) show ?thesis by (rule assms(3))
next
  case (Raises e)
  then have "st' = mid"
    using assms(4) by (simp add: and_then_def)
  with assms(1) show ?thesis by simp
qed

text \<open>One update of one key.\<close>

lemma update_json_single:
  "update_json p [(K, V)] st =
     (case json_object st p of
        None \<Rightarrow> (Raises (if map_of (files st) p = None then OSError else JSONError), st)
      | Some doc \<Rightarrow>
          (Returns (),
           st\<lparr>files := AList.update p (JsonFile (AList.update K V doc)) (files st)\<rparr>))"
  by (simp add: update_json_def json_object_def dict_update_def
      split: option.splits content.splits)

lemma update_json_raises:
  "update_json p [(K, V)] st = (Raises e, st') \<Longrightarrow> st' = st \<and> json_object st p = None"
  by (auto simp: update_json_single split: option.splits)

lemma update_json_returns:
  assumes "update_json p [(K, V)] st = (Returns u, st')"
  shows "iterdir st' = iterdir st"
    and "json_object st p \<noteq> None"
    and "map_of (files st') n = (if n = p then map_of (files st') p else map_of (files st) n)"
    and "json_object st' n \<noteq> None \<longleftrightarrow> json_object st n \<noteq> None"
    and "field st' n k = (if n = p \<and> k = K then Some V else field st n k)"
proof -
  obtain doc where doc: "json_object st p = Some doc"
    and st': "st' = st\<lparr>files := AList.update p (JsonFile (AList.update K V doc)) (files st)\<rparr>"
    using assms by (auto simp: update_json_single split: option.splits)
  have p: "map_of (files st) p = Some (JsonFile doc)"
    using doc by (auto simp: json_object_def split: option.splits content.splits)
  then have "(p, JsonFile doc) \<in> set (files st)"
    by (rule map_of_SomeD)
  then have "p \<in> fst ` set (files st)"
    by (rule rev_image_eqI) simp
  then show "iterdir st' = iterdir st"
    by (simp add: st' iterdir_def AList.update_keys)
  show "json_object st p \<noteq> None"
    using doc by simp
  show "map_of (files st') n = (if n = p then map_of (files st') p else map_of (files st) n)"
    by (simp add: st' AList.update_conv')
  show "json_object st' n \<noteq> None \<longleftrightarrow> json_object st n \<noteq> None"
    using doc by (simp add: st' json_object_def AList.update_conv')
  show "field st' n k = (if n = p \<and> k = K then Some V else field st n k)"
    using p by (simp add: st' field_def json_object_def AList.update_conv')
qed

lemma sidecar_frame_refl: "sidecar_frame angle st st"
  by (simp add: sidecar_frame_def)

lemma sidecar_frame_trans:
  assumes "sidecar_frame angle a b" and "sidecar_frame angle b c"
  shows "sidecar_frame angle a c"
  unfolding sidecar_frame_def
proof (intro conjI allI impI)
  show "iterdir c = iterdir a"
    using assms by (simp add: sidecar_frame_def)
  show "map_of (files c) name = map_of (files a) name" if "json_object a name = None" for name
  proof -
    have ab: "map_of (files b) name = map_of (files a) name"
      using assms(1) that by (simp add: sidecar_frame_def)
    then have "json_object b name = None"
      using that by (simp add: json_object_def)
    then have "map_of (files c) name = map_of (files b) name"
      using assms(2) by (simp add: sidecar_frame_def)
    with ab show ?thesis by simp
  qed
  show "json_object c name \<noteq> None" if "json_object a name \<noteq> None" for name
    using assms that by (simp add: sidecar_frame_def)
  show "field c name key = field a name key \<or> allowed_change angle name key (field c name key)"
    for name key
  proof -
    have "field c name key = field b name key \<or> allowed_change angle name key (field c name key)"
      and "field b name key = field a name key \<or> allowed_change angle name key (field b name key)"
      using assms by (simp_all add: sidecar_frame_def)
    then show ?thesis by auto
  qed
qed

lemma sidecar_frame_update_json:
  assumes "update_json p [(K, V)] st = (r, st')" and "allowed_change angle p K (Some V)"
  shows "sidecar_frame angle st st'"
proof (cases r)
  case (Raises e)
  then show ?thesis
    using assms(1) update_json_raises [of p K V st e st'] by (simp add: sidecar_frame_refl)
next
  case (Returns u)
  note up = update_json_returns [OF assms(1) [unfolded Returns]]
  show ?thesis
    unfolding sidecar_frame_def
  proof (intro conjI allI impI)
    show "iterdir st' = iterdir st" by (rule up(1))
    show "map_of (files st') name = map_of (files st) name" if "json_object st name = None" for name
      using that up(2) up(3) [of name] by auto
    show "json_object st' name \<noteq> None" if "json_object st name \<noteq> None" for name
      using that up(4) [of name] by simp
    show "field st' name key = field st name key
          \<or> allowed_change angle name key (field st' name key)" for name key
      using assms(2) up(5) [of name key] by auto
  qed
qed

lemma sidecar_frame_print: "sidecar_frame angle st (print n st)"
  by (simp add: sidecar_frame_def print_def iterdir_def json_object_def field_def)

text \<open>The result of \<open>get_mt_flip_angle\<close> is the same in every state, and the state is
  the one it was called in, with a warning more on the console at most.\<close>

lemma get_mt_flip_angle_result:
  "fst (get_mt_flip_angle py_float dcmread ds st)
     = fst (get_mt_flip_angle py_float dcmread ds st2)"
  by (simp add: get_mt_flip_angle_def split: list.splits option.splits)

lemma get_mt_flip_angle_state:
  "snd (get_mt_flip_angle py_float dcmread ds st) = st
   \<or> (\<exists>g. snd (get_mt_flip_angle py_float dcmread ds st) = print (WarningMTFlipAngle g) st
           \<and> fst (get_mt_flip_angle py_float dcmread ds st) = Returns None)"
  by (auto simp: get_mt_flip_angle_def split: list.splits option.splits)

lemma get_mt_flip_angle_resolved:
  "fst (get_mt_flip_angle py_float dcmread ds st) = Returns v
     \<Longrightarrow> resolved_mt_flip_angle py_float dcmread ds = v"
  using get_mt_flip_angle_result
    [of py_float dcmread ds st "\<lparr>files = [], console = []\<rparr> :: unit state"]
  by (simp add: resolved_mt_flip_angle_def)

lemma resolved_get_mt_flip_angle:
  assumes "resolved_mt_flip_angle py_float dcmread ds = Some a"
  shows "get_mt_flip_angle py_float dcmread ds st = (Returns (Some a), st)"
proof -
  have "fst (get_mt_flip_angle py_float dcmread ds
               (\<lparr>files = [], console = []\<rparr> :: unit state)) = Returns (Some a)"
    using assms by (simp add: resolved_mt_flip_angle_def split: result.splits)
  then have "fst (get_mt_flip_angle py_float dcmread ds st) = Returns (Some a)"
    using get_mt_flip_angle_result
      [of py_float dcmread ds st "\<lparr>files = [], console = []\<rparr> :: unit state"]
    by simp
  moreover from this have "snd (get_mt_flip_angle py_float dcmread ds st) = st"
    using get_mt_flip_angle_state [of py_float dcmread ds st] by auto
  ultimately show ?thesis
    by (simp add: prod_eq_iff)
qed

lemma sidecar_frame_patch_mt_flip_angle:
  assumes "patch_mt_flip_angle py_float dcmread ds p st = (r, st')"
    and "glob_json ''neuromelaninMTw'' p"
  shows "sidecar_frame (resolved_mt_flip_angle py_float dcmread ds) st st'"
proof (cases "get_mt_flip_angle py_float dcmread ds st")
  case (Pair g s1)
  have s1: "s1 = st \<or> (\<exists>w. s1 = print w st)"
    using get_mt_flip_angle_state [of py_float dcmread ds st] Pair by auto
  then have frame1: "sidecar_frame (resolved_mt_flip_angle py_float dcmread ds) st s1"
    by (auto simp: sidecar_frame_refl sidecar_frame_print)
  show ?thesis
  proof (cases g)
    case (Raises e)
    then show ?thesis
      using assms(1) Pair frame1 by (simp add: patch_mt_flip_angle_def)
  next
    case (Returns v)
    show ?thesis
    proof (cases v)
      case None
      then show ?thesis
        using assms(1) Pair Returns frame1 by (simp add: patch_mt_flip_angle_def)
    next
      case (Some a)
      have res: "resolved_mt_flip_angle py_float dcmread ds = Some a"
        using Pair Returns Some get_mt_flip_angle_resolved [of py_float dcmread ds st "Some a"]
        by simp
      have up: "update_json p [(''MTFlipAngle'', JFloat a)] s1 = (r, st')"
        using assms(1) Pair Returns Some by (simp add: patch_mt_flip_angle_def)
      have "allowed_change (resolved_mt_flip_angle py_float dcmread ds) p ''MTFlipAngle''
              (Some (JFloat a))"
        using assms(2) by (simp add: allowed_change_def res)
      with up have "sidecar_frame (resolved_mt_flip_angle py_float dcmread ds) s1 st'"
        by (rule sidecar_frame_update_json)
      with frame1 show ?thesis by (rule sidecar_frame_trans)
    qed
  qed
qed

lemma rglob_json_matches: "x \<in> set (rglob_json word st) \<Longrightarrow> glob_json word x"
  by (simp add: rglob_json_def)

lemma patch_json_frame:
  assumes "patch_json py_float dcmread ds st = (r, st')"
  shows "sidecar_frame (resolved_mt_flip_angle py_float dcmread ds) st st'"
proof -
  let ?R = "sidecar_frame (resolved_mt_flip_angle py_float dcmread ds)"
  have loop: "?R s s'"
    if "for_each (\<lambda>json_path. update_json json_path [(K, V)]) (rglob_json word s) s = (r', s')"
      and "\<And>x. glob_json word x \<Longrightarrow>
             allowed_change (resolved_mt_flip_angle py_float dcmread ds) x K (Some V)"
    for s s' r' K V word
    using that(1)
    by (rule for_each_preserves [rotated 3])
      (auto intro: sidecar_frame_update_json sidecar_frame_refl sidecar_frame_trans that(2)
        dest: rglob_json_matches)
  have loop4: "?R s s'"
    if "for_each (patch_mt_flip_angle py_float dcmread ds)
          (rglob_json ''neuromelaninMTw'' s) s = (r', s')"
    for s s' r'
    using that
    by (rule for_each_preserves [rotated 3])
      (auto intro: sidecar_frame_patch_mt_flip_angle sidecar_frame_refl sidecar_frame_trans
        dest: rglob_json_matches)
  obtain r1 s1 where l1: "for_each (\<lambda>json_path. update_json json_path [(''Units'', JString ''rad'')])
          (rglob_json ''part-phase'' st) st = (r1, s1)"
    by (cases "for_each (\<lambda>json_path. update_json json_path [(''Units'', JString ''rad'')])
          (rglob_json ''part-phase'' st) st") blast
  have f1: "?R st s1"
    using l1 by (rule loop) (simp add: allowed_change_def)
  show ?thesis
    using f1
  proof (rule and_then_preserves [where first = r1 and r = r and R = ?R])
    show "and_then (r1, s1)
            (\<lambda>st1. and_then
               (for_each (\<lambda>json_path. update_json json_path [(''MTState'', JBool False)])
                  (rglob_json ''mt-off'' st1) st1)
               (\<lambda>st2. and_then
                  (for_each (\<lambda>json_path. update_json json_path [(''MTState'', JBool True)])
                     (rglob_json ''mt-on'' st2) st2)
                  (\<lambda>st3. for_each (patch_mt_flip_angle py_float dcmread ds)
                            (rglob_json ''neuromelaninMTw'' st3) st3))) = (r, st')"
      using assms l1 by (simp add: patch_json_def)
  next
    fix r' s'
    assume a2: "and_then
               (for_each (\<lambda>json_path. update_json json_path [(''MTState'', JBool False)])
                  (rglob_json ''mt-off'' s1) s1)
               (\<lambda>st2. and_then
                  (for_each (\<lambda>json_path. update_json json_path [(''MTState'', JBool True)])
                     (rglob_json ''mt-on'' st2) st2)
                  (\<lambda>st3. for_each (patch_mt_flip_angle py_float dcmread ds)
                            (rglob_json ''neuromelaninMTw'' st3) st3)) = (r', s')"
    obtain r2 s2 where l2: "for_each (\<lambda>json_path. update_json json_path [(''MTState'', JBool False)])
                  (rglob_json ''mt-off'' s1) s1 = (r2, s2)"
      by (cases "for_each (\<lambda>json_path. update_json json_path [(''MTState'', JBool False)])
                  (rglob_json ''mt-off'' s1) s1") blast
    have f2: "?R s1 s2"
      using l2 by (rule loop) (simp add: allowed_change_def)
    show "?R s1 s'"
      using f2
    proof (rule and_then_preserves [where first = r2 and r = r' and R = ?R])
      show "and_then (r2, s2)
              (\<lambda>st2. and_then
                  (for_each (\<lambda>json_path. update_json json_path [(''MTState'', JBool True)])
                     (rglob_json ''mt-on'' st2) st2)
                  (\<lambda>st3. for_each (patch_mt_flip_angle py_float dcmread ds)
                            (rglob_json ''neuromelaninMTw'' st3) st3)) = (r', s')"
        using a2 l2 by simp
    next
      fix r'' s''
      assume a3: "and_then
                  (for_each (\<lambda>json_path. update_json json_path [(''MTState'', JBool True)])
                     (rglob_json ''mt-on'' s2) s2)
                  (\<lambda>st3. for_each (patch_mt_flip_angle py_float dcmread ds)
                            (rglob_json ''neuromelaninMTw'' st3) st3) = (r'', s'')"
      obtain r3 s3 where l3: "for_each (\<lambda>json_path. update_json json_path [(''MTState'', JBool True)])
                     (rglob_json ''mt-on'' s2) s2 = (r3, s3)"
        by (cases "for_each (\<lambda>json_path. update_json json_path [(''MTState'', JBool True)])
                     (rglob_json ''mt-on'' s2) s2") blast
      have f3: "?R s2 s3"
        using l3 by (rule loop) (simp add: allowed_change_def)
      show "?R s2 s''"
        using f3
      proof (rule and_then_preserves [where first = r3 and r = r'' and R = ?R])
        show "and_then (r3, s3)
                (\<lambda>st3. for_each (patch_mt_flip_angle py_float dcmread ds)
                            (rglob_json ''neuromelaninMTw'' st3) st3) = (r'', s'')"
          using a3 l3 by simp
      next
        fix r4 s4
        assume "for_each (patch_mt_flip_angle py_float dcmread ds)
                  (rglob_json ''neuromelaninMTw'' s3) s3 = (r4, s4)"
        then show "?R s3 s4" by (rule loop4)
      qed (rule sidecar_frame_trans)
    qed (rule sidecar_frame_trans)
  qed (rule sidecar_frame_trans)
qed

lemma update_loop_returns:
  assumes "\<forall>x\<in>set xs. json_object st x \<noteq> None"
  shows "\<exists>st'. for_each (\<lambda>json_path. update_json json_path [(K, V)]) xs st = (Returns (), st')"
  using assms
proof (induction xs arbitrary: st)
  case Nil
  then show ?case by simp
next
  case (Cons x xs)
  then obtain doc where "json_object st x = Some doc" by auto
  then obtain s1 where s1: "update_json x [(K, V)] st = (Returns (), s1)"
    by (simp add: update_json_single)
  have "\<forall>y\<in>set xs. json_object s1 y \<noteq> None"
    using Cons.prems update_json_returns(4) [OF s1] by simp
  from Cons.IH [OF this] show ?case
    using s1 by simp
qed

lemma update_loop_sets:
  assumes "for_each (\<lambda>json_path. update_json json_path [(K, V)]) xs st = (Returns (), st')"
    and "\<forall>n\<in>A. field st n K = Some V"
  shows "\<forall>n\<in>A \<union> set xs. field st' n K = Some V"
  using assms
proof (induction xs arbitrary: st A)
  case Nil
  then show ?case by simp
next
  case (Cons x xs)
  show ?case
  proof (cases "update_json x [(K, V)] st")
    case (Pair r1 s1)
    show ?thesis
    proof (cases r1)
      case (Raises e)
      then show ?thesis
        using Cons.prems(1) Pair by simp
    next
      case (Returns u)
      have rest: "for_each (\<lambda>json_path. update_json json_path [(K, V)]) xs s1 = (Returns (), st')"
        using Cons.prems(1) Pair Returns by simp
      have "\<forall>n\<in>insert x A. field s1 n K = Some V"
        using Cons.prems(2) update_json_returns(5) [OF Pair [unfolded Returns]] by simp
      from Cons.IH [OF rest this] show ?thesis by simp
    qed
  qed
qed

text \<open>
  Claim C8.  Whatever the end of \<open>patch_json\<close>, a return or an exception: the names of
  the directory are as before, a file that held no JSON object is as it was, and in a
  sidecar a key has a new value only if it is \<open>Units\<close> in a \<open>part-phase\<close> file (then
  \<open>rad\<close>), \<open>MTState\<close> in an \<open>mt-off\<close> or \<open>mt-on\<close> file (then false or true), or
  \<open>MTFlipAngle\<close> in a \<open>neuromelaninMTw\<close> file (then the resolved angle).  Every other
  key has the value it had, and a key that was there is still there.
\<close>

theorem patch_json_changes_named_keys_only:
  assumes "patch_json py_float dcmread dicom_series st = (r, st')"
  shows "iterdir st' = iterdir st
       \<and> (\<forall>name. json_object st name = None \<longrightarrow>
                    map_of (files st') name = map_of (files st) name)
       \<and> (\<forall>name key. field st name key \<noteq> None \<longrightarrow> field st' name key \<noteq> None)
       \<and> (\<forall>name key. field st' name key \<noteq> field st name key \<longrightarrow>
             (key = ''Units'' \<and> glob_json ''part-phase'' name
                \<and> field st' name key = Some (JString ''rad''))
           \<or> (key = ''MTState'' \<and> glob_json ''mt-off'' name
                \<and> field st' name key = Some (JBool False))
           \<or> (key = ''MTState'' \<and> glob_json ''mt-on'' name
                \<and> field st' name key = Some (JBool True))
           \<or> (key = ''MTFlipAngle'' \<and> glob_json ''neuromelaninMTw'' name
                \<and> (\<exists>a. resolved_mt_flip_angle py_float dcmread dicom_series = Some a
                        \<and> field st' name key = Some (JFloat a))))"
proof -
  have frame: "sidecar_frame (resolved_mt_flip_angle py_float dcmread dicom_series) st st'"
    using assms by (rule patch_json_frame)
  have change: "field st' name key = field st name key
      \<or> allowed_change (resolved_mt_flip_angle py_float dcmread dicom_series) name key
           (field st' name key)" for name key
    using frame by (simp add: sidecar_frame_def)
  show ?thesis
  proof (intro conjI allI impI)
    show "iterdir st' = iterdir st"
      using frame by (simp add: sidecar_frame_def)
    show "map_of (files st') name = map_of (files st) name" if "json_object st name = None" for name
      using frame that by (simp add: sidecar_frame_def)
    show "field st' name key \<noteq> None" if "field st name key \<noteq> None" for name key
      using change [of name key] that by (auto simp: allowed_change_def)
    show "(key = ''Units'' \<and> glob_json ''part-phase'' name
                \<and> field st' name key = Some (JString ''rad''))
           \<or> (key = ''MTState'' \<and> glob_json ''mt-off'' name
                \<and> field st' name key = Some (JBool False))
           \<or> (key = ''MTState'' \<and> glob_json ''mt-on'' name
                \<and> field st' name key = Some (JBool True))
           \<or> (key = ''MTFlipAngle'' \<and> glob_json ''neuromelaninMTw'' name
                \<and> (\<exists>a. resolved_mt_flip_angle py_float dcmread dicom_series = Some a
                        \<and> field st' name key = Some (JFloat a)))"
      if "field st' name key \<noteq> field st name key" for name key
      using change [of name key] that unfolding allowed_change_def by blast
  qed
qed

theorem patch_json_changes_named_keys_only_witness:
  "patch_json (\<lambda>s. None :: unit option) (\<lambda>p. None) \<lparr>series_id = (), file_paths = []\<rparr>
     \<lparr>files = [(''sub-01_acq-mtw_mt-off_MTR.json'',
                 JsonFile [(''EchoTime'', JInt 3), (''MTState'', JNull)]),
                (''sub-01_acq-mtw_mt-off_MTR.nii.gz'', OtherFile)],
      console = []\<rparr>
   = (Returns (),
      \<lparr>files = [(''sub-01_acq-mtw_mt-off_MTR.json'',
                  JsonFile [(''EchoTime'', JInt 3), (''MTState'', JBool False)]),
                 (''sub-01_acq-mtw_mt-off_MTR.nii.gz'', OtherFile)],
       console = []\<rparr>)
   \<and> iterdir \<lparr>files = [(''sub-01_acq-mtw_mt-off_MTR.json'',
                  JsonFile [(''EchoTime'', JInt 3), (''MTState'', JBool False :: unit json)]),
                 (''sub-01_acq-mtw_mt-off_MTR.nii.gz'', OtherFile)],
       console = []\<rparr>
     = iterdir \<lparr>files = [(''sub-01_acq-mtw_mt-off_MTR.json'',
                 JsonFile [(''EchoTime'', JInt 3), (''MTState'', JNull :: unit json)]),
                (''sub-01_acq-mtw_mt-off_MTR.nii.gz'', OtherFile)],
      console = []\<rparr>"
proof -
  let ?st = "\<lparr>files = [(''sub-01_acq-mtw_mt-off_MTR.json'',
                 JsonFile [(''EchoTime'', JInt 3), (''MTState'', JNull :: unit json)]),
                (''sub-01_acq-mtw_mt-off_MTR.nii.gz'', OtherFile)],
      console = []\<rparr>"
  let ?st' = "\<lparr>files = [(''sub-01_acq-mtw_mt-off_MTR.json'',
                  JsonFile [(''EchoTime'', JInt 3), (''MTState'', JBool False :: unit json)]),
                 (''sub-01_acq-mtw_mt-off_MTR.nii.gz'', OtherFile)],
       console = []\<rparr>"
  have p: "patch_json (\<lambda>s. None :: unit option) (\<lambda>p. None)
             \<lparr>series_id = (), file_paths = []\<rparr> ?st = (Returns (), ?st')"
    by code_simp
  show ?thesis
    using patch_json_changes_named_keys_only [OF p] p by blast
qed

section \<open>The MT flip angle in the sidecars\<close>

lemma update_loop_keeps:
  assumes "for_each (\<lambda>json_path. update_json json_path [(K, V)]) xs s = (r, s')"
  shows "iterdir s' = iterdir s \<and> (\<forall>n. json_object s n \<noteq> None \<longrightarrow> json_object s' n \<noteq> None)"
  using assms
proof (rule for_each_preserves [rotated 3])
  fix x a r1 b
  assume "update_json x [(K, V)] a = (r1, b)"
  then show "iterdir b = iterdir a \<and> (\<forall>n. json_object a n \<noteq> None \<longrightarrow> json_object b n \<noteq> None)"
    using update_json_raises [of x K V a _ b] update_json_returns(1,4) [of x K V a _ b]
    by (cases r1) auto
qed auto

lemma update_loop_step:
  assumes "\<forall>n\<in>set (iterdir s). is_patched_sidecar n \<longrightarrow> json_object s n \<noteq> None"
    and "\<forall>x. glob_json word x \<longrightarrow> is_patched_sidecar x"
  shows "\<exists>s'. for_each (\<lambda>json_path. update_json json_path [(K, V)]) (rglob_json word s) s
                 = (Returns (), s')
             \<and> iterdir s' = iterdir s
             \<and> (\<forall>n. json_object s n \<noteq> None \<longrightarrow> json_object s' n \<noteq> None)
             \<and> (\<forall>n\<in>set (rglob_json word s). field s' n K = Some V)"
proof -
  have "\<forall>x\<in>set (rglob_json word s). json_object s x \<noteq> None"
    using assms by (simp add: rglob_json_def)
  then obtain s' where s': "for_each (\<lambda>json_path. update_json json_path [(K, V)])
      (rglob_json word s) s = (Returns (), s')"
    using update_loop_returns by blast
  have "\<forall>n\<in>{} \<union> set (rglob_json word s). field s' n K = Some V"
    using s' by (rule update_loop_sets) simp
  then show ?thesis
    using s' update_loop_keeps [OF s'] by auto
qed

lemma patch_json_merges_angle:
  assumes res: "resolved_mt_flip_angle py_float dcmread ds = Some a"
    and json: "\<forall>n\<in>set (iterdir st). is_patched_sidecar n \<longrightarrow> json_object st n \<noteq> None"
    and name: "name \<in> set (iterdir st)" "glob_json ''neuromelaninMTw'' name"
  shows "\<exists>st'. patch_json py_float dcmread ds st = (Returns (), st')
               \<and> field st' name ''MTFlipAngle'' = Some (JFloat a)"
proof -
  have body: "patch_mt_flip_angle py_float dcmread ds
      = (\<lambda>json_path. update_json json_path [(''MTFlipAngle'', JFloat a)])"
    by (intro ext) (simp add: patch_mt_flip_angle_def resolved_get_mt_flip_angle [OF res])
  obtain s1 where l1: "for_each (\<lambda>json_path. update_json json_path [(''Units'', JString ''rad'')])
        (rglob_json ''part-phase'' st) st = (Returns (), s1)"
    and i1: "iterdir s1 = iterdir st"
    and j1: "\<forall>n. json_object st n \<noteq> None \<longrightarrow> json_object s1 n \<noteq> None"
    using update_loop_step [OF json, of "''part-phase''" "''Units''" "JString ''rad''"]
    by (auto simp: is_patched_sidecar_def)
  have json1: "\<forall>n\<in>set (iterdir s1). is_patched_sidecar n \<longrightarrow> json_object s1 n \<noteq> None"
    using json i1 j1 by simp
  obtain s2 where l2: "for_each (\<lambda>json_path. update_json json_path [(''MTState'', JBool False)])
        (rglob_json ''mt-off'' s1) s1 = (Returns (), s2)"
    and i2: "iterdir s2 = iterdir s1"
    and j2: "\<forall>n. json_object s1 n \<noteq> None \<longrightarrow> json_object s2 n \<noteq> None"
    using update_loop_step [OF json1, of "''mt-off''" "''MTState''" "JBool False"]
    by (auto simp: is_patched_sidecar_def)
  have json2: "\<forall>n\<in>set (iterdir s2). is_patched_sidecar n \<longrightarrow> json_object s2 n \<noteq> None"
    using json1 i2 j2 by simp
  obtain s3 where l3: "for_each (\<lambda>json_path. update_json json_path [(''MTState'', JBool True)])
        (rglob_json ''mt-on'' s2) s2 = (Returns (), s3)"
    and i3: "iterdir s3 = iterdir s2"
    and j3: "\<forall>n. json_object s2 n \<noteq> None \<longrightarrow> json_object s3 n \<noteq> None"
    using update_loop_step [OF json2, of "''mt-on''" "''MTState''" "JBool True"]
    by (auto simp: is_patched_sidecar_def)
  have json3: "\<forall>n\<in>set (iterdir s3). is_patched_sidecar n \<longrightarrow> json_object s3 n \<noteq> None"
    using json2 i3 j3 by simp
  obtain s4 where l4: "for_each (\<lambda>json_path. update_json json_path [(''MTFlipAngle'', JFloat a)])
        (rglob_json ''neuromelaninMTw'' s3) s3 = (Returns (), s4)"
    and f4: "\<forall>n\<in>set (rglob_json ''neuromelaninMTw'' s3). field s4 n ''MTFlipAngle'' = Some (JFloat a)"
    using update_loop_step [OF json3, of "''neuromelaninMTw''" "''MTFlipAngle''" "JFloat a"]
    by (auto simp: is_patched_sidecar_def)
  have "name \<in> set (rglob_json ''neuromelaninMTw'' s3)"
    using name i1 i2 i3 by (simp add: rglob_json_def)
  then have "field s4 name ''MTFlipAngle'' = Some (JFloat a)"
    using f4 by simp
  moreover have "patch_json py_float dcmread ds st = (Returns (), s4)"
    by (simp add: patch_json_def and_then_def l1 l2 l3 body l4)
  ultimately show ?thesis by simp
qed

text \<open>
  Claim C7, as stated, fails: a resolved angle is not always merged.  The directory
  holds the sidecar \<open>sub-01_acq-neuromelaninMTw_T1w.json\<close>, a JSON object, and a file
  \<open>sub-01_part-phase_T2starw.json\<close> that holds no JSON object; the CSA block of the
  series gives the angle 45, so \<open>get_mt_flip_angle\<close> resolves a value.  The first loop
  of \<open>patch_json\<close> calls \<open>update_json\<close> on the \<open>part-phase\<close> file, the call raises, and
  \<open>patch_json\<close> ends there: the loop over the \<open>neuromelaninMTw\<close> sidecars is never
  reached and the sidecar has no \<open>MTFlipAngle\<close>.
\<close>

theorem mt_flip_angle_not_merged_counterexample:
  "resolved_mt_flip_angle (\<lambda>s. if s = ''45'' then Some (45 :: int) else None)
     (\<lambda>p. if p = ''1.dcm''
           then Some (\<lambda>tag. if tag = (0x0029, 0x1020)
                             then Some (mt_flip_angle_prefix @ ''45'' @ [backslash, CHR ''n''])
                             else None)
           else None)
     \<lparr>series_id = (), file_paths = [''1.dcm'']\<rparr> = Some 45
   \<and> glob_json ''neuromelaninMTw'' ''sub-01_acq-neuromelaninMTw_T1w.json''
   \<and> json_object
        \<lparr>files = [(''sub-01_acq-neuromelaninMTw_T1w.json'',
                    JsonFile [(''EchoTime'', JInt 3 :: int json)]),
                   (''sub-01_part-phase_T2starw.json'', OtherFile)],
         console = []\<rparr>
        ''sub-01_acq-neuromelaninMTw_T1w.json'' = Some [(''EchoTime'', JInt 3)]
   \<and> patch_json (\<lambda>s. if s = ''45'' then Some (45 :: int) else None)
        (\<lambda>p. if p = ''1.dcm''
              then Some (\<lambda>tag. if tag = (0x0029, 0x1020)
                                then Some (mt_flip_angle_prefix @ ''45'' @ [backslash, CHR ''n''])
                                else None)
              else None)
        \<lparr>series_id = (), file_paths = [''1.dcm'']\<rparr>
        \<lparr>files = [(''sub-01_acq-neuromelaninMTw_T1w.json'', JsonFile [(''EchoTime'', JInt 3)]),
                   (''sub-01_part-phase_T2starw.json'', OtherFile)],
         console = []\<rparr>
      = (Raises JSONError,
         \<lparr>files = [(''sub-01_acq-neuromelaninMTw_T1w.json'', JsonFile [(''EchoTime'', JInt 3)]),
                    (''sub-01_part-phase_T2starw.json'', OtherFile)],
          console = []\<rparr>)
   \<and> field
        \<lparr>files = [(''sub-01_acq-neuromelaninMTw_T1w.json'',
                    JsonFile [(''EchoTime'', JInt 3 :: int json)]),
                   (''sub-01_part-phase_T2starw.json'', OtherFile)],
         console = []\<rparr>
        ''sub-01_acq-neuromelaninMTw_T1w.json'' ''MTFlipAngle'' = None"
  by code_simp

text \<open>
  Claim C7, amended.  \<open>patch_json\<close> merges \<open>MTFlipAngle\<close> into the \<open>neuromelaninMTw\<close>
  sidecars when \<open>get_mt_flip_angle\<close> resolves a value and no earlier update raises.
  When it resolves none (it returns no value, as for a missing CSA block, or raises),
  the \<open>MTFlipAngle\<close> of every file is as it was: nothing is added.  When it resolves the
  angle \<open>a\<close>, and every file of the directory that one of the four patterns of
  \<open>patch_json\<close> matches holds a JSON object, \<open>patch_json\<close> returns and every
  \<open>neuromelaninMTw\<close> sidecar of the directory has \<open>MTFlipAngle\<close> \<open>a\<close>.  A file whose name
  does not match \<open>*neuromelaninMTw*.json\<close> never gets the field.
\<close>

theorem mt_flip_angle_merged_when_resolved:
  assumes "patch_json py_float dcmread dicom_series st = (r, st')"
  shows "(\<forall>v. fst (get_mt_flip_angle py_float dcmread dicom_series st) = Returns v \<longrightarrow>
            resolved_mt_flip_angle py_float dcmread dicom_series = v)
       \<and> (\<forall>e. fst (get_mt_flip_angle py_float dcmread dicom_series st) = Raises e \<longrightarrow>
            resolved_mt_flip_angle py_float dcmread dicom_series = None)
       \<and> (resolved_mt_flip_angle py_float dcmread dicom_series = None \<longrightarrow>
            (\<forall>name. field st' name ''MTFlipAngle'' = field st name ''MTFlipAngle''))
       \<and> (\<forall>a name. resolved_mt_flip_angle py_float dcmread dicom_series = Some a
              \<and> name \<in> set (iterdir st) \<and> glob_json ''neuromelaninMTw'' name
              \<and> (\<forall>n\<in>set (iterdir st). is_patched_sidecar n \<longrightarrow> json_object st n \<noteq> None) \<longrightarrow>
            r = Returns () \<and> field st' name ''MTFlipAngle'' = Some (JFloat a))
       \<and> (\<forall>name. \<not> glob_json ''neuromelaninMTw'' name \<longrightarrow>
            field st' name ''MTFlipAngle'' = field st name ''MTFlipAngle'')"
proof -
  have frame: "sidecar_frame (resolved_mt_flip_angle py_float dcmread dicom_series) st st'"
    using assms by (rule patch_json_frame)
  have change: "field st' name ''MTFlipAngle'' = field st name ''MTFlipAngle''
      \<or> allowed_change (resolved_mt_flip_angle py_float dcmread dicom_series) name
           ''MTFlipAngle'' (field st' name ''MTFlipAngle'')" for name
    using frame by (simp add: sidecar_frame_def)
  show ?thesis
  proof (intro conjI allI impI)
    show "resolved_mt_flip_angle py_float dcmread dicom_series = v"
      if "fst (get_mt_flip_angle py_float dcmread dicom_series st) = Returns v" for v
      using that by (rule get_mt_flip_angle_resolved)
    show "resolved_mt_flip_angle py_float dcmread dicom_series = None"
      if "fst (get_mt_flip_angle py_float dcmread dicom_series st) = Raises e" for e
      using that get_mt_flip_angle_result
        [of py_float dcmread dicom_series st "\<lparr>files = [], console = []\<rparr> :: unit state"]
      by (simp add: resolved_mt_flip_angle_def)
    show "field st' name ''MTFlipAngle'' = field st name ''MTFlipAngle''"
      if "resolved_mt_flip_angle py_float dcmread dicom_series = None" for name
      using change [of name] that by (simp add: allowed_change_def)
    show "field st' name ''MTFlipAngle'' = field st name ''MTFlipAngle''"
      if "\<not> glob_json ''neuromelaninMTw'' name" for name
      using change [of name] that by (simp add: allowed_change_def)
  next
    fix a name
    assume h: "resolved_mt_flip_angle py_float dcmread dicom_series = Some a
              \<and> name \<in> set (iterdir st) \<and> glob_json ''neuromelaninMTw'' name
              \<and> (\<forall>n\<in>set (iterdir st). is_patched_sidecar n \<longrightarrow> json_object st n \<noteq> None)"
    then obtain s where "patch_json py_float dcmread dicom_series st = (Returns (), s)"
      and "field s name ''MTFlipAngle'' = Some (JFloat a)"
      using patch_json_merges_angle [of py_float dcmread dicom_series a st name] by blast
    then show "r = Returns ()" and "field st' name ''MTFlipAngle'' = Some (JFloat a)"
      using assms by simp_all
  qed
qed

theorem mt_flip_angle_merged_when_resolved_witness:
  "patch_json (\<lambda>s. if s = ''45'' then Some (45 :: int) else None)
     (\<lambda>p. if p = ''1.dcm'' then Some (\<lambda>tag. None) else None)
     \<lparr>series_id = (), file_paths = [''1.dcm'']\<rparr>
     \<lparr>files = [(''sub-01_acq-neuromelaninMTw_T1w.json'', JsonFile [(''EchoTime'', JInt 3)])],
      console = []\<rparr>
   = (Returns (),
      \<lparr>files = [(''sub-01_acq-neuromelaninMTw_T1w.json'', JsonFile [(''EchoTime'', JInt 3)])],
       console = []\<rparr>)
   \<and> patch_json (\<lambda>s. if s = ''45'' then Some (45 :: int) else None)
        (\<lambda>p. if p = ''1.dcm''
              then Some (\<lambda>tag. if tag = (0x0029, 0x1020)
                                then Some (mt_flip_angle_prefix @ ''45'' @ [backslash, CHR ''n''])
                                else None)
              else None)
        \<lparr>series_id = (), file_paths = [''1.dcm'']\<rparr>
        \<lparr>files = [(''sub-01_acq-neuromelaninMTw_T1w.json'', JsonFile [(''EchoTime'', JInt 3)])],
         console = []\<rparr>
      = (Returns (),
         \<lparr>files = [(''sub-01_acq-neuromelaninMTw_T1w.json'',
                     JsonFile [(''EchoTime'', JInt 3), (''MTFlipAngle'', JFloat 45)])],
          console = []\<rparr>)
   \<and> field \<lparr>files = [(''sub-01_acq-neuromelaninMTw_T1w.json'',
                       JsonFile [(''EchoTime'', JInt 3), (''MTFlipAngle'', JFloat (45 :: int))])],
             console = []\<rparr>
        ''sub-01_acq-neuromelaninMTw_T1w.json'' ''MTFlipAngle'' = Some (JFloat 45)"
proof -
  let ?float = "\<lambda>s. if s = ''45'' then Some (45 :: int) else None"
  let ?bare = "\<lambda>p. if p = ''1.dcm''
                   then Some (\<lambda>tag :: nat \<times> nat. None :: string option) else None"
  let ?csa = "\<lambda>p. if p = ''1.dcm''
             then Some (\<lambda>tag :: nat \<times> nat. if tag = (0x0029, 0x1020)
                               then Some (mt_flip_angle_prefix @ ''45'' @ [backslash, CHR ''n''])
                               else None)
             else None"
  let ?series = "\<lparr>series_id = (), file_paths = [''1.dcm'']\<rparr>"
  let ?name = "''sub-01_acq-neuromelaninMTw_T1w.json''"
  let ?st = "\<lparr>files = [(?name, JsonFile [(''EchoTime'', JInt 3 :: int json)])], console = []\<rparr>"
  let ?st' = "\<lparr>files = [(?name, JsonFile [(''EchoTime'', JInt 3),
                                          (''MTFlipAngle'', JFloat (45 :: int))])],
               console = []\<rparr>"
  have r0: "resolved_mt_flip_angle ?float ?bare ?series = None"
    by code_simp
  have r1: "resolved_mt_flip_angle ?float ?csa ?series = Some 45"
    by code_simp
  have m: "glob_json ''neuromelaninMTw'' ?name"
    by code_simp
  have i: "?name \<in> set (iterdir ?st)"
    by (simp add: iterdir_def)
  have j: "\<forall>n\<in>set (iterdir ?st). is_patched_sidecar n \<longrightarrow> json_object ?st n \<noteq> None"
    by (simp add: iterdir_def json_object_def)
  have p0: "patch_json ?float ?bare ?series ?st = (Returns (), ?st)"
    by code_simp
  have p1: "patch_json ?float ?csa ?series ?st = (Returns (), ?st')"
    by code_simp
  show ?thesis
    using mt_flip_angle_merged_when_resolved [OF p0] mt_flip_angle_merged_when_resolved [OF p1]
      r0 r1 m i j p0 p1
    by blast
qed

section \<open>Writing a name and reading it back\<close>

lemma split_on_nonempty [simp]: "split_on d s \<noteq> []"
  by (induction s) (auto split: list.splits)

lemma split_on_free: "d \<notin> set w \<Longrightarrow> split_on d w = [w]"
  by (induction w) auto

lemma split_on_append:
  "d \<notin> set w \<Longrightarrow> split_on d (w @ d # s) = w # split_on d s"
  by (induction w) (auto split: list.splits)

lemma split_on_join:
  assumes "ws \<noteq> []" and "\<forall>w\<in>set ws. d \<notin> set w"
  shows "split_on d (join_with d ws) = ws"
  using assms
proof (induction d ws rule: join_with.induct)
  case (1 d)
  then show ?case by simp
next
  case (2 d w)
  then show ?case by (simp add: split_on_free)
next
  case (3 d w v ws)
  then show ?case by (simp add: split_on_append)
qed

lemma split_on_tokens:
  "t \<in> set (split_on d s) \<Longrightarrow> d \<notin> set t \<and> set t \<subseteq> set s"
proof (induction s arbitrary: t)
  case Nil
  then show ?case by simp
next
  case (Cons c cs)
  show ?case
  proof (cases "c = d")
    case True
    then show ?thesis using Cons by auto
  next
    case False
    obtain w ws where sp: "split_on d cs = w # ws"
      by (cases "split_on d cs") auto
    have w: "d \<notin> set w \<and> set w \<subseteq> set cs"
      using Cons.IH [of w] sp by simp
    have "t = c # w \<or> t \<in> set ws"
      using Cons.prems False sp by simp
    then show ?thesis
    proof
      assume "t = c # w"
      then show ?thesis using w False by auto
    next
      assume "t \<in> set ws"
      then have "t \<in> set (split_on d cs)" using sp by simp
      from Cons.IH [OF this] show ?thesis by auto
    qed
  qed
qed

lemma split_first_free: "d \<notin> set k \<Longrightarrow> split_first d k = (k, None)"
  by (induction k) auto

lemma split_first_append: "d \<notin> set k \<Longrightarrow> split_first d (k @ d # v) = (k, Some v)"
  by (induction k) auto

lemma split_first_parts:
  "split_first d s = (k, v) \<Longrightarrow>
     d \<notin> set k \<and> set k \<subseteq> set s \<and> (\<forall>w. v = Some w \<longrightarrow> set w \<subseteq> set s)"
proof (induction s arbitrary: k v)
  case Nil
  then show ?case by simp
next
  case (Cons c cs)
  show ?case
  proof (cases "c = d")
    case True
    then show ?thesis using Cons.prems by auto
  next
    case False
    obtain h t where sp: "split_first d cs = (h, t)"
      by (cases "split_first d cs") auto
    from Cons.IH [OF sp] Cons.prems False sp show ?thesis by auto
  qed
qed

lemma join_with_chars: "set (join_with d ws) \<subseteq> insert d (\<Union> (set ` set ws))"
  by (induction d ws rule: join_with.induct) auto

lemma split_first_part_string:
  assumes "CHR ''-'' \<notin> set (fst p)"
  shows "split_first (CHR ''-'') (part_string p) = p"
  using assms
  by (cases p; cases "snd p") (auto simp: part_string_def split_first_free split_first_append)

lemma enter_parts:
  assumes "distinct (map fst kvs)" and "fst ` set kvs \<inter> fst ` set acc = {}"
    and "\<forall>p\<in>set kvs. CHR ''-'' \<notin> set (fst p)"
  shows "foldl (\<lambda>ps t. case split_first (CHR ''-'') t of (k, v) \<Rightarrow> AList.update k v ps)
           acc (map part_string kvs) = acc @ kvs"
  using assms
proof (induction kvs arbitrary: acc)
  case Nil
  then show ?case by simp
next
  case (Cons p kvs)
  obtain k v where p: "p = (k, v)" by (cases p)
  have sp: "split_first (CHR ''-'') (part_string (k, v)) = (k, v)"
    using Cons.prems(3) p split_first_part_string [of "(k, v)"] by simp
  have "k \<notin> fst ` set acc"
    using Cons.prems(2) p by auto
  then have up: "AList.update k v acc = acc @ [(k, v)]"
    by (induction acc) auto
  have "foldl (\<lambda>ps t. case split_first (CHR ''-'') t of (k, v) \<Rightarrow> AList.update k v ps)
           (acc @ [(k, v)]) (map part_string kvs) = (acc @ [(k, v)]) @ kvs"
    using Cons.prems p by (intro Cons.IH) auto
  then show ?case
    by (simp add: sp up p)
qed

lemma from_string_to_string:
  assumes "well_formed b"
  shows "from_string (to_string b) = b"
proof -
  let ?tokens = "map part_string (parts b)"
  let ?stem = "join_with (CHR ''_'') ?tokens"
  have clean: "\<forall>p\<in>set (parts b). separator_free (fst p) \<and> CHR ''-'' \<notin> set (fst p)
      \<and> (\<forall>w. snd p = Some w \<longrightarrow> separator_free w)"
    and dist: "distinct (map fst (parts b))" and ne: "parts b \<noteq> []"
    using assms by (simp_all add: well_formed_def clean_parts_def)
  have token: "CHR ''_'' \<notin> set t \<and> CHR ''.'' \<notin> set t" if "t \<in> set ?tokens" for t
  proof -
    from that have "t \<in> part_string ` set (parts b)" by simp
    then obtain p where t: "t = part_string p" and p: "p \<in> set (parts b)"
      by (rule imageE)
    show ?thesis
      using clean p by (cases "snd p") (auto simp: t part_string_def separator_free_def)
  qed
  have "set ?stem \<subseteq> insert (CHR ''_'') (\<Union> (set ` set ?tokens))"
    by (rule join_with_chars)
  then have dot: "CHR ''.'' \<notin> set ?stem"
    using token by auto
  have split: "split_first (CHR ''.'') (to_string b)
      = (?stem, if extension b = [] then None else Some (extension b))"
    using dot by (simp add: to_string_def split_first_free split_first_append)
  have tokens: "split_on (CHR ''_'') ?stem = ?tokens"
    using ne token by (intro split_on_join) auto
  have "foldl (\<lambda>ps t. case split_first (CHR ''-'') t of (k, v) \<Rightarrow> AList.update k v ps)
          [] ?tokens = [] @ parts b"
    using dist clean by (intro enter_parts) auto
  then show ?thesis
    by (simp add: from_string_def split tokens)
qed

lemma set_update_subset: "set (AList.update k v ps) \<subseteq> insert (k, v) (set ps)"
  by (induction ps) auto

lemma set_delete_subset: "set (AList.delete k ps) \<subseteq> set ps"
  by (induction ps) auto

lemma clean_parts_add:
  assumes "clean_parts b" and "separator_free k" and "CHR ''-'' \<notin> set k"
    and "\<forall>w. v = Some w \<longrightarrow> separator_free w"
  shows "clean_parts (add k v b)"
  using assms set_update_subset [of k v "parts b"]
  by (auto simp: clean_parts_def add_def AList.distinct_update)

lemma clean_parts_remove_part: "clean_parts b \<Longrightarrow> clean_parts (remove_part k b)"
  using set_delete_subset [of k "parts b"]
  by (auto simp: clean_parts_def remove_part_def AList.distinct_delete)

lemma parts_add_nonempty [simp]: "parts (add k v b) \<noteq> []"
  by (simp add: add_def)

lemma has_parts_nonempty: "has k b \<Longrightarrow> parts b \<noteq> []"
  by (auto simp: has_def)

lemma well_formed_add:
  assumes "clean_parts b" and "separator_free k" and "CHR ''-'' \<notin> set k"
    and "\<forall>w. v = Some w \<longrightarrow> separator_free w"
  shows "well_formed (add k v b)"
  using assms by (simp add: well_formed_def clean_parts_add)

lemma well_formed_remove_part:
  assumes "well_formed b" and "has k' b" and "k' \<noteq> k"
  shows "well_formed (remove_part k b)"
proof -
  have "has k' (remove_part k b)"
    using assms(2,3) by simp
  then have "parts (remove_part k b) \<noteq> []"
    by (rule has_parts_nonempty)
  then show ?thesis
    using assms(1) by (simp add: well_formed_def clean_parts_remove_part)
qed

lemma search_echo_digit: "search_echo s = Some d \<Longrightarrow> is_digit d"
  by (induction s rule: search_echo.induct) (auto split: if_splits)

lemma is_digit_separator_free: "is_digit c \<Longrightarrow> c \<noteq> CHR ''_'' \<and> c \<noteq> CHR ''.''"
  by (auto simp: is_digit_def)

lemma digits_of_digits: "c \<in> set (digits_of n) \<Longrightarrow> is_digit c"
proof (induction n rule: digits_of.induct)
  case (1 n)
  show ?case
  proof (cases "n < 10")
    case True
    then have "c = char_of (48 + n)"
      using "1.prems" by (simp add: digits_of.simps [of n])
    then show ?thesis
      using True by (simp add: is_digit_def)
  next
    case False
    then have "c \<in> set (digits_of (n div 10)) \<or> c = char_of (48 + n mod 10)"
      using "1.prems" by (auto simp: digits_of.simps [of n])
    then show ?thesis
    proof
      assume "c \<in> set (digits_of (n div 10))"
      then show ?thesis using False by (intro "1.IH") simp_all
    next
      assume c: "c = char_of (48 + n mod 10)"
      have "n mod 10 < 10" by simp
      then have "(48 + n mod 10) mod 256 = 48 + n mod 10" by simp
      then show ?thesis
        by (simp add: c is_digit_def)
    qed
  qed
qed

lemma py_str_separator_free: "separator_free (py_str n)"
  using digits_of_digits is_digit_separator_free
  by (fastforce simp: separator_free_def py_str_def)

lemma well_formed_rules_before:
  assumes "well_formed b"
  shows "well_formed (rules_before_tb1tfl b)"
proof -
  have clean: "well_formed x \<Longrightarrow> clean_parts x" for x
    by (simp add: well_formed_def)
  have s3: "well_formed (rule_echo b)"
  proof (cases "match_echo b")
    case None
    then show ?thesis using assms by (simp add: rule_echo_def)
  next
    case (Some d)
    then have "is_digit d"
      by (auto simp: match_echo_def dest: search_echo_digit)
    then have "separator_free [d]"
      using is_digit_separator_free [of d] by (auto simp: separator_free_def)
    then show ?thesis
      using assms Some
      by (simp add: rule_echo_def well_formed_add clean clean_parts_remove_part
          separator_free_def)
  qed
  have s4: "well_formed (rule_echo_run x)" if "well_formed x" for x
    using that well_formed_remove_part [of x "''echo''" "''run''"]
    by (auto simp: rule_echo_run_def)
  have s5: "well_formed (rule_mtw_run x)" if "well_formed x" for x
    using that well_formed_remove_part [of x "''acq''" "''run''"]
    by (auto simp: rule_mtw_run_def dest: has_value_has)
  have s6: "well_formed (rule_ph x)" if "well_formed x" for x
    using that
    by (simp add: rule_ph_def well_formed_add clean clean_parts_remove_part separator_free_def)
  have s7: "well_formed (rule_part_mag x)" if "well_formed x" for x
    using that
    by (simp add: rule_part_mag_def well_formed_add clean separator_free_def)
  have s8: "well_formed (rule_t2starmap x)" if "well_formed x" for x
    using that
    by (simp add: rule_t2starmap_def well_formed_add clean clean_parts_remove_part
        separator_free_def)
  have s9: "well_formed (rule_dwi_run1 x)" if "well_formed x" for x
    using that well_formed_remove_part [of x "''dwi''" "''run''"]
    by (auto simp: rule_dwi_run1_def)
  have s10: "well_formed (rule_dwi_run2 x)" if "well_formed x" for x
    using that
    by (simp add: rule_dwi_run2_def well_formed_add clean clean_parts_remove_part
        separator_free_def)
  show ?thesis
    unfolding rules_before_tb1tfl_def
    by (intro s10 s9 s8 s7 s6 s5 s4 s3)
qed

lemma well_formed_rename_rules:
  assumes "well_formed b" and "rename_rules b = Inr b'"
  shows "well_formed b'"
proof -
  define s where "s = rules_before_tb1tfl b"
  have s: "well_formed s"
    using assms(1) by (simp add: s_def well_formed_rules_before)
  have r: "rule_tb1tfl s = Inr b'"
    using assms(2) by (simp add: rename_rules_def s_def)
  show ?thesis
  proof (cases "has ''TB1TFL'' s")
    case False
    then show ?thesis using r s by (simp add: rule_tb1tfl_def)
  next
    case True
    with r obtain n c where "run_number_of s = Inr n" and "ceil_half n = Inr c"
      and b': "b' = add ''run'' (Some (py_str c))
              (add ''acq'' (Some (if n mod 2 = 1 then ''anat'' else ''sfam'')) s)"
      by (rule rule_tb1tfl_result)
    define t where "t = add ''acq'' (Some (if n mod 2 = 1 then ''anat'' else ''sfam'')) s"
    have "clean_parts t"
      unfolding t_def using s
      by (intro clean_parts_add) (simp_all add: well_formed_def separator_free_def)
    moreover have "CHR ''_'' \<notin> set (py_str c) \<and> CHR ''.'' \<notin> set (py_str c)"
      using py_str_separator_free [of c] by (simp add: separator_free_def)
    ultimately have "well_formed (add ''run'' (Some (py_str c)) t)"
      by (intro well_formed_add) (simp_all add: separator_free_def)
    then show ?thesis
      by (simp add: b' t_def)
  qed
qed

lemma foldl_enter:
  fixes ts :: "string list"
  defines "step \<equiv> \<lambda>ps t. case split_first (CHR ''-'') t of (k, v) \<Rightarrow> AList.update k v ps"
  shows "distinct (map fst acc) \<Longrightarrow> distinct (map fst (foldl step acc ts))"
    and "acc \<noteq> [] \<or> ts \<noteq> [] \<Longrightarrow> foldl step acc ts \<noteq> []"
    and "set (foldl step acc ts) \<subseteq> set acc \<union> split_first (CHR ''-'') ` set ts"
proof (induction ts arbitrary: acc)
  case Nil
  {
    case 1 then show ?case by simp
  next
    case 2 then show ?case by simp
  next
    case 3 then show ?case by simp
  }
next
  case (Cons t ts)
  obtain k v where kv: "split_first (CHR ''-'') t = (k, v)"
    by (cases "split_first (CHR ''-'') t") auto
  have st: "step acc t = AList.update k v acc" for acc
    by (simp add: step_def kv)
  {
    case 1
    then show ?case
      by (simp add: st Cons.IH(1) AList.distinct_update)
  next
    case 2
    show ?case
      by (simp add: st Cons.IH(2))
  next
    case 3
    have "set (foldl step (AList.update k v acc) ts)
        \<subseteq> set (AList.update k v acc) \<union> split_first (CHR ''-'') ` set ts"
      by (rule Cons.IH(3))
    then show ?case
      using set_update_subset [of k v acc] by (auto simp: st kv)
  }
qed

lemma well_formed_from_string: "well_formed (from_string s)"
proof -
  obtain stem ext where se: "split_first (CHR ''.'') s = (stem, ext)"
    by (cases "split_first (CHR ''.'') s") auto
  let ?step = "\<lambda>ps t. case split_first (CHR ''-'') t of (k, v) \<Rightarrow> AList.update k v ps"
  let ?parts = "foldl ?step [] (split_on (CHR ''_'') stem)"
  have parts: "parts (from_string s) = ?parts"
    by (simp add: from_string_def se)
  have dot: "CHR ''.'' \<notin> set stem"
    using split_first_parts [OF se] by simp
  have ne: "?parts \<noteq> []"
    by (rule foldl_enter(2)) simp
  have dist: "distinct (map fst ?parts)"
    by (rule foldl_enter(1)) simp
  have sub: "set ?parts \<subseteq> split_first (CHR ''-'') ` set (split_on (CHR ''_'') stem)"
    using foldl_enter(3) [of "[]" "split_on (CHR ''_'') stem"] by simp
  have "separator_free (fst p) \<and> CHR ''-'' \<notin> set (fst p)
      \<and> (\<forall>w. snd p = Some w \<longrightarrow> separator_free w)" if "p \<in> set ?parts" for p
  proof -
    from sub that have "p \<in> split_first (CHR ''-'') ` set (split_on (CHR ''_'') stem)"
      by blast
    then obtain t where p: "p = split_first (CHR ''-'') t"
      and t: "t \<in> set (split_on (CHR ''_'') stem)"
      by (rule imageE)
    have tok: "CHR ''_'' \<notin> set t" "set t \<subseteq> set stem"
      using split_on_tokens [OF t] by simp_all
    have "split_first (CHR ''-'') t = (fst p, snd p)"
      using p by simp
    from split_first_parts [OF this] tok dot show ?thesis
      by (auto simp: separator_free_def)
  qed
  then show ?thesis
    using ne dist by (simp add: well_formed_def clean_parts_def parts)
qed

section \<open>Applying the rules to a patched file name\<close>

lemma is_superfluous_rename_rules:
  assumes "rename_rules b = Inr b'"
  shows "is_superfluous b' = is_superfluous b"
proof -
  define s where "s = rules_before_tb1tfl b"
  have s: "has ''MP2RAGE'' s = has ''MP2RAGE'' b" "has ''ROI1'' s = has ''ROI1'' b"
    "extension s = extension b"
    by (simp_all add: s_def rules_before_tb1tfl_def rule_other)
  have r: "rule_tb1tfl s = Inr b'"
    using assms by (simp add: rename_rules_def s_def)
  have "has ''MP2RAGE'' b' = has ''MP2RAGE'' s \<and> has ''ROI1'' b' = has ''ROI1'' s
      \<and> extension b' = extension s"
  proof (cases "has ''TB1TFL'' s")
    case False
    then show ?thesis using r by (simp add: rule_tb1tfl_def)
  next
    case True
    with r obtain n c where "run_number_of s = Inr n" and "ceil_half n = Inr c"
      and "b' = add ''run'' (Some (py_str c))
              (add ''acq'' (Some (if n mod 2 = 1 then ''anat'' else ''sfam'')) s)"
      by (rule rule_tb1tfl_result)
    then show ?thesis by simp
  qed
  then show ?thesis
    using s by (simp add: is_superfluous_def)
qed

text \<open>
  Claim C1, as stated, fails.  The TB1TFL rule halves the run number at every
  application: \<open>run-3\<close> becomes \<open>acq-anat\<close>, \<open>run-2\<close>, and a second application makes
  that \<open>acq-sfam\<close>, \<open>run-1\<close>.  And a name with two echo tokens has one of them replaced
  at each application.
\<close>

theorem second_pass_counterexample:
  "new_file_name ''sub-01_run-3_TB1TFL.nii.gz'' = Inr ''sub-01_run-2_TB1TFL_acq-anat.nii.gz''
   \<and> new_file_name ''sub-01_run-2_TB1TFL_acq-anat.nii.gz''
       = Inr ''sub-01_run-1_TB1TFL_acq-sfam.nii.gz''
   \<and> new_file_name ''sub-01_T2starw_e1_e2.nii.gz'' = Inr ''sub-01_T2starw_e2_echo-1_part-mag.nii.gz''
   \<and> new_file_name ''sub-01_T2starw_e2_echo-1_part-mag.nii.gz''
       = Inr ''sub-01_T2starw_echo-2_part-mag.nii.gz''"
  by code_simp

text \<open>
  Claim C1, amended.  Let the rules of \<open>patch_file_path\<close> turn a file name into a name
  that has no \<open>e?\<close> token left.  If the name has no TB1TFL marker, a second application
  of the rules to the new name changes nothing; this covers the names that the echo
  rule and the dwi \<open>run-1\<close> and \<open>run-2\<close> rules produce.  If it has the TB1TFL marker (and
  is not a dwi name), a second application changes nothing when the first one gave
  \<open>acq-sfam\<close> with \<open>run-0\<close> or \<open>acq-anat\<close> with \<open>run-1\<close>, that is, when the run number was
  0, 1 or missing.  Then \<open>patch_file_path\<close> on the renamed file returns and leaves the
  directory and the console as they are.
\<close>

theorem second_pass_changes_nothing:
  assumes "new_file_name name = Inr name'"
    and "search_echo name' = None"
    and "\<not> has ''TB1TFL'' (from_string name)
         \<or> (\<not> has ''dwi'' (from_string name)
             \<and> ((has_value ''run'' ''0'' (from_string name')
                   \<and> has_value ''acq'' ''sfam'' (from_string name'))
                  \<or> (has_value ''run'' ''1'' (from_string name')
                      \<and> has_value ''acq'' ''anat'' (from_string name'))))"
  shows "new_file_name name' = Inr name'
       \<and> (\<not> is_superfluous (from_string name) \<longrightarrow>
             patch_file_path name' st = (Returns (), st))"
proof -
  obtain b' where b': "rename_rules (from_string name) = Inr b'" and n': "name' = to_string b'"
    using assms(1) by (auto simp: new_file_name_def split: sum.splits)
  have "well_formed b'"
    using well_formed_from_string b' by (rule well_formed_rename_rules)
  then have reparse: "from_string name' = b'"
    by (simp add: n' from_string_to_string)
  have "match_echo b' = None"
    using assms(2) by (simp add: match_echo_def n')
  then have "rename_rules b' = Inr b'"
    using b' assms(3) unfolding reparse by (intro rules_second_pass) auto
  then have again: "new_file_name name' = Inr name'"
    unfolding new_file_name_def reparse by (simp add: n')
  moreover have "patch_file_path name' st = (Returns (), st)"
    if "\<not> is_superfluous (from_string name)"
  proof -
    have "\<not> is_superfluous (from_string name')"
      using that is_superfluous_rename_rules [OF b'] by (simp add: reparse)
    then show ?thesis
      by (simp add: patch_file_path_kept again rename_if_changed_def)
  qed
  ultimately show ?thesis by simp
qed

theorem second_pass_changes_nothing_witness:
  "new_file_name ''sub-01_task-motor_run-1_bold_e2.nii.gz''
     = Inr ''sub-01_task-motor_bold_echo-2.nii.gz''
   \<and> new_file_name ''sub-01_task-motor_bold_echo-2.nii.gz''
     = Inr ''sub-01_task-motor_bold_echo-2.nii.gz''
   \<and> new_file_name ''sub-01_run-2_dwi.nii.gz'' = Inr ''sub-01_dwi_part-phase.nii.gz''
   \<and> new_file_name ''sub-01_dwi_part-phase.nii.gz'' = Inr ''sub-01_dwi_part-phase.nii.gz''
   \<and> new_file_name ''sub-01_run-1_TB1TFL.nii.gz'' = Inr ''sub-01_run-1_TB1TFL_acq-anat.nii.gz''
   \<and> new_file_name ''sub-01_run-1_TB1TFL_acq-anat.nii.gz''
     = Inr ''sub-01_run-1_TB1TFL_acq-anat.nii.gz''
   \<and> patch_file_path ''sub-01_run-1_TB1TFL_acq-anat.nii.gz''
        \<lparr>files = [(''sub-01_run-1_TB1TFL_acq-anat.nii.gz'', OtherFile :: unit content)],
         console = []\<rparr>
     = (Returns (),
        \<lparr>files = [(''sub-01_run-1_TB1TFL_acq-anat.nii.gz'', OtherFile)], console = []\<rparr>)"
proof -
  let ?e = "''sub-01_task-motor_run-1_bold_e2.nii.gz''"
  let ?e' = "''sub-01_task-motor_bold_echo-2.nii.gz''"
  let ?d = "''sub-01_run-2_dwi.nii.gz''"
  let ?d' = "''sub-01_dwi_part-phase.nii.gz''"
  let ?t = "''sub-01_run-1_TB1TFL.nii.gz''"
  let ?t' = "''sub-01_run-1_TB1TFL_acq-anat.nii.gz''"
  let ?st = "\<lparr>files = [(?t', OtherFile :: unit content)], console = []\<rparr>"
  have e1: "new_file_name ?e = Inr ?e'" by code_simp
  have e2: "search_echo ?e' = None" by code_simp
  have e3: "\<not> has ''TB1TFL'' (from_string ?e)" by code_simp
  have d1: "new_file_name ?d = Inr ?d'" by code_simp
  have d2: "search_echo ?d' = None" by code_simp
  have d3: "\<not> has ''TB1TFL'' (from_string ?d)" by code_simp
  have t1: "new_file_name ?t = Inr ?t'" by code_simp
  have t2: "search_echo ?t' = None" by code_simp
  have t3: "\<not> has ''dwi'' (from_string ?t)
            \<and> has_value ''run'' ''1'' (from_string ?t')
            \<and> has_value ''acq'' ''anat'' (from_string ?t')"
    by code_simp
  have t4: "\<not> is_superfluous (from_string ?t)" by code_simp
  show ?thesis
    using second_pass_changes_nothing [OF e1 e2 disjI1 [OF e3], of ?st]
      second_pass_changes_nothing [OF d1 d2 disjI1 [OF d3], of ?st]
      second_pass_changes_nothing [OF t1 t2, of ?st] t3 t4 e1 d1 t1
    by blast
qed

end
